theory Spec2Isabelle
  imports Main "HOL-Library.AList"
begin

section \<open>JavaScript values used by the handler\<close>

text \<open>
  A string is the list of its code units, each below 256 (the Latin-1 range). The
  character classes below are those of JavaScript on that range: \<^verbatim>\<open>\s\<close> and \<^verbatim>\<open>trim()\<close>
  take the tab, the line feed, the vertical tab, the form feed, the carriage return, the
  space and the no-break space U+00A0; \<^verbatim>\<open>\d\<close>, \<^verbatim>\<open>\w\<close> and \<^verbatim>\<open>\b\<close> are ASCII; \<^verbatim>\<open>.\<close>
  excludes the line feed and the carriage return. An absent value (\<^verbatim>\<open>undefined\<close>,
  \<^verbatim>\<open>null\<close>) is \<open>None\<close>.
\<close>

definition isSpace :: "char \<Rightarrow> bool" where
  "isSpace c =
     (c \<in> set [CHR 0x09, CHR 0x0A, CHR 0x0B, CHR 0x0C, CHR 0x0D, CHR 0x20, CHR 0xA0])"

definition isDigit :: "char \<Rightarrow> bool" where
  "isDigit c = (c \<in> set ''0123456789'')"

definition isAlpha :: "char \<Rightarrow> bool" where
  "isAlpha c = (c \<in> set ''abcdefghijklmnopqrstuvwxyzABCDEFGHIJKLMNOPQRSTUVWXYZ'')"

definition isWordChar :: "char \<Rightarrow> bool" where
  "isWordChar c = (isAlpha c \<or> isDigit c \<or> c = CHR ''_'')"

definition isLineTerminator :: "char \<Rightarrow> bool" where
  "isLineTerminator c = (c = CHR 0x0A \<or> c = CHR 0x0D)"

text \<open>\<^verbatim>\<open>s.trim()\<close>\<close>

definition trim :: "string \<Rightarrow> string" where
  "trim s = rev (dropWhile isSpace (rev (dropWhile isSpace s)))"

text \<open>\<^verbatim>\<open>Boolean(s)\<close> for a string.\<close>

definition truthy :: "string \<Rightarrow> bool" where
  "truthy s = (s \<noteq> [])"

text \<open>\<^verbatim>\<open>xs.join(sep)\<close>\<close>

fun join :: "string \<Rightarrow> string list \<Rightarrow> string" where
  "join sep [] = []"
| "join sep [x] = x"
| "join sep (x # y # ys) = x @ sep @ join sep (y # ys)"

text \<open>\<^verbatim>\<open>a || b\<close> on strings that may be absent: the empty string is falsy.\<close>

definition js_or :: "string option \<Rightarrow> string option \<Rightarrow> string option" where
  "js_or a b = (case a of None \<Rightarrow> b | Some s \<Rightarrow> if truthy s then Some s else b)"

definition or_default :: "string option \<Rightarrow> string \<Rightarrow> string" where
  "or_default a d = (case a of None \<Rightarrow> d | Some s \<Rightarrow> if truthy s then s else d)"

text \<open>
  \<^verbatim>\<open>Array.from(new Set(xs))\<close>: a Set keeps its elements in insertion order and ignores
  a value it already holds.
\<close>

fun Set_add_all :: "'a list \<Rightarrow> 'a list \<Rightarrow> 'a list" where
  "Set_add_all acc [] = acc"
| "Set_add_all acc (x # xs) = Set_add_all (if x \<in> set acc then acc else acc @ [x]) xs"

definition Array_from_Set :: "'a list \<Rightarrow> 'a list" where
  "Array_from_Set xs = Set_add_all [] xs"

text \<open>
  A JavaScript \<^verbatim>\<open>Map\<close> as an association list in insertion order: \<^verbatim>\<open>set\<close> on a key
  that is present replaces the value where it stands, a new key goes to the end.
\<close>

definition Map_set :: "('k \<times> 'v) list \<Rightarrow> 'k \<Rightarrow> 'v \<Rightarrow> ('k \<times> 'v) list" where
  "Map_set m k v = AList.update k v m"

definition Map_get :: "('k \<times> 'v) list \<Rightarrow> 'k \<Rightarrow> 'v option" where
  "Map_get m k = map_of m k"

text \<open>\<^verbatim>\<open>xs[i]\<close>, which is \<^verbatim>\<open>undefined\<close> out of range.\<close>

definition at_index :: "'a list \<Rightarrow> int \<Rightarrow> 'a option" where
  "at_index xs i = (if 0 \<le> i \<and> i < int (length xs) then Some (xs ! nat i) else None)"

text \<open>\<^verbatim>\<open>raw.split(/\n+/)\<close>: the pieces between maximal runs of newlines.\<close>

function split_newlines :: "string \<Rightarrow> string \<Rightarrow> string list" where
  "split_newlines cur [] = [rev cur]"
| "split_newlines cur (c # cs) =
     (if c = CHR 0x0A then rev cur # split_newlines [] (dropWhile (\<lambda>d. d = CHR 0x0A) cs)
      else split_newlines (c # cur) cs)"
  by pat_completeness auto
termination
  by (relation "measure (\<lambda>(cur, s). length s)") (auto simp: length_dropWhile_le less_Suc_eq_le)

section \<open>Regular expressions\<close>

text \<open>
  A position in the subject is the pair of the code units before it (nearest first) and
  the code units from it on. A pattern maps a position to the positions where a match
  starting there can end, in the order in which the backtracking matcher of JavaScript
  tries them; the match it reports is the first one.
\<close>

type_synonym pos = "string \<times> string"
type_synonym matcher = "pos \<Rightarrow> pos list"

definition re_class :: "(char \<Rightarrow> bool) \<Rightarrow> matcher" where
  "re_class P p = (case snd p of [] \<Rightarrow> [] | c # cs \<Rightarrow> if P c then [(c # fst p, cs)] else [])"

definition re_seq :: "matcher \<Rightarrow> matcher \<Rightarrow> matcher" where
  "re_seq m n p = concat (map n (m p))"

definition re_alt :: "matcher \<Rightarrow> matcher \<Rightarrow> matcher" where
  "re_alt m n p = m p @ n p"

text \<open>The greedy quantifier \<^verbatim>\<open>{lo,hi}\<close>: one more repetition is tried before stopping.\<close>

fun re_rep :: "nat \<Rightarrow> nat \<Rightarrow> matcher \<Rightarrow> matcher" where
  "re_rep lo 0 m p = (if lo = 0 then [p] else [])"
| "re_rep lo (Suc hi) m p =
     concat (map (re_rep (lo - 1) hi m) (m p)) @ (if lo = 0 then [p] else [])"

text \<open>
  \<^verbatim>\<open>+\<close> on a pattern that consumes one code unit per repetition: it cannot repeat more
  often than there are code units left.
\<close>

definition re_plus :: "matcher \<Rightarrow> matcher" where
  "re_plus m p = re_rep 1 (length (snd p)) m p"

text \<open>\<^verbatim>\<open>\b\<close>: exactly one of the two neighbours is a word character.\<close>

definition word_at :: "string \<Rightarrow> bool" where
  "word_at s = (case s of [] \<Rightarrow> False | c # _ \<Rightarrow> isWordChar c)"

definition re_wordb :: matcher where
  "re_wordb p = (if word_at (fst p) \<noteq> word_at (snd p) then [p] else [])"

text \<open>
  \<^verbatim>\<open>s.match(re)\<close> for a pattern without the global flag: the leftmost start at which
  the pattern matches, and there the first match; the result is the matched text.
\<close>

fun re_exec_from :: "matcher \<Rightarrow> string \<Rightarrow> string \<Rightarrow> string option" where
  "re_exec_from m pre [] = (case m (pre, []) of [] \<Rightarrow> None | e # _ \<Rightarrow> Some [])"
| "re_exec_from m pre (c # cs) =
     (case m (pre, c # cs) of
        [] \<Rightarrow> re_exec_from m (c # pre) cs
      | e # _ \<Rightarrow> Some (take (length (c # cs) - length (snd e)) (c # cs)))"

definition re_exec :: "matcher \<Rightarrow> string \<Rightarrow> string option" where
  "re_exec m s = re_exec_from m [] s"

definition re_test :: "matcher \<Rightarrow> string \<Rightarrow> bool" where
  "re_test m s = (re_exec m s \<noteq> None)"

definition re_digit :: matcher where
  "re_digit = re_class isDigit"

definition re_char :: "char \<Rightarrow> matcher" where
  "re_char c = re_class (\<lambda>d. d = c)"

definition re_dot :: matcher where
  "re_dot = re_class (\<lambda>c. \<not> isLineTerminator c)"

text \<open>\<^verbatim>\<open>/\b(\d{1,2}\/\d{1,2}\/\d{4})\b/\<close> of \<^verbatim>\<open>parseDateToLocal\<close>\<close>

definition embedded_dmy :: matcher where
  "embedded_dmy =
     re_seq re_wordb (re_seq (re_rep 1 2 re_digit) (re_seq (re_char CHR ''/'')
       (re_seq (re_rep 1 2 re_digit) (re_seq (re_char CHR ''/'')
         (re_seq (re_rep 4 4 re_digit) re_wordb)))))"

text \<open>
  \<^verbatim>\<open>/(\b\d{1,2}\/\d{1,2}\/\d{2,4}\b)|(\b\d{1,2}\s+[A-Za-z]{3,9}\s+\d{4}\b)|(\b\d{4}-\d{2}-\d{2}\b)/\<close>
  of the text scan in \<^verbatim>\<open>extractCollections\<close>
\<close>

definition dateRegex :: matcher where
  "dateRegex =
     re_alt
       (re_seq re_wordb (re_seq (re_rep 1 2 re_digit) (re_seq (re_char CHR ''/'')
          (re_seq (re_rep 1 2 re_digit) (re_seq (re_char CHR ''/'')
            (re_seq (re_rep 2 4 re_digit) re_wordb))))))
       (re_alt
          (re_seq re_wordb (re_seq (re_rep 1 2 re_digit) (re_seq (re_plus (re_class isSpace))
             (re_seq (re_rep 3 9 (re_class isAlpha)) (re_seq (re_plus (re_class isSpace))
               (re_seq (re_rep 4 4 re_digit) re_wordb))))))
          (re_seq re_wordb (re_seq (re_rep 4 4 re_digit) (re_seq (re_char CHR ''-'')
             (re_seq (re_rep 2 2 re_digit) (re_seq (re_char CHR ''-'')
               (re_seq (re_rep 2 2 re_digit) re_wordb)))))))"

text \<open>\<^verbatim>\<open>/.+@.+\..+/\<close> of the recipient filter in \<^verbatim>\<open>exports.daily\<close>\<close>

definition emailRegex :: matcher where
  "emailRegex =
     re_seq (re_plus re_dot) (re_seq (re_char CHR ''@'')
       (re_seq (re_plus re_dot) (re_seq (re_char CHR ''.'') (re_plus re_dot))))"

section \<open>The date library\<close>

text \<open>
  The handler uses the library luxon, which is not part of the repository. A luxon
  \<^verbatim>\<open>DateTime\<close> is the record of what the handler reads from it: \<^verbatim>\<open>isValid\<close>,
  \<^verbatim>\<open>valueOf()\<close> (epoch milliseconds, which \<^verbatim>\<open>>=\<close> and \<^verbatim>\<open>-\<close> compare), \<^verbatim>\<open>toISODate()\<close>,
  \<^verbatim>\<open>day\<close> and \<^verbatim>\<open>toFormat('MMMM yyyy')\<close>. The functions of the library are parameters,
  collected in the record \<open>luxon\<close>; none of them throws (an input that does not parse
  gives a \<^verbatim>\<open>DateTime\<close> that is not valid).
\<close>

record DateTime =
  isValid :: bool
  valueOf :: int
  toISODate :: string
  day :: nat
  toFormat_MMMM_yyyy :: string

record luxon =
  fromFormat :: "string \<Rightarrow> string \<Rightarrow> string \<Rightarrow> DateTime"
  fromISO :: "string \<Rightarrow> string option \<Rightarrow> DateTime"
  startOf_day :: "DateTime \<Rightarrow> DateTime"
  plus_days :: "DateTime \<Rightarrow> int \<Rightarrow> DateTime"
  now_setZone :: "string \<Rightarrow> DateTime"

section \<open>parseDateToLocal\<close>

text \<open>
  \<open>tz\<close> is \<^verbatim>\<open>process.env.TZ\<close>. The result \<open>None\<close> is \<^verbatim>\<open>null\<close>. The function has no
  \<^verbatim>\<open>throw\<close> and calls only luxon, \<^verbatim>\<open>trim\<close> and \<^verbatim>\<open>match\<close>.
\<close>

definition parseDateToLocal :: "luxon \<Rightarrow> string option \<Rightarrow> string \<Rightarrow> DateTime option" where
  "parseDateToLocal L tz str =
    (let zone = or_default tz ''Europe/London'';
         s = trim str;
         dt1 = fromFormat L s ''d/M/yyyy'' zone
     in if isValid dt1 then Some (startOf_day L dt1)
        else let dt2 = fromFormat L s ''d/M/yy'' zone
     in if isValid dt2 then Some (startOf_day L dt2)
        else let dt3 = fromFormat L s ''d LLL yyyy'' zone
     in if isValid dt3 then Some (startOf_day L dt3)
        else let dt4 = fromISO L s (Some zone)
     in if isValid dt4 then Some (startOf_day L dt4)
        else (case re_exec embedded_dmy s of
                None \<Rightarrow> None
              | Some inner \<Rightarrow>
                  (let innerDt = fromFormat L inner ''d/M/yyyy'' zone
                   in if isValid innerDt then Some (startOf_day L innerDt) else None)))"

text \<open>
  The contract of the parser in the words of the specification: the candidates in priority
  order, the first valid one taken at the start of its day in the zone, \<open>None\<close> when none
  is valid.
\<close>

definition parse_candidates :: "luxon \<Rightarrow> string \<Rightarrow> string \<Rightarrow> DateTime list" where
  "parse_candidates L zone s =
     [fromFormat L s ''d/M/yyyy'' zone,
      fromFormat L s ''d/M/yy'' zone,
      fromFormat L s ''d LLL yyyy'' zone,
      fromISO L s (Some zone)]
     @ (case re_exec embedded_dmy s of
          None \<Rightarrow> []
        | Some inner \<Rightarrow> [fromFormat L inner ''d/M/yyyy'' zone])"

definition parse_spec :: "luxon \<Rightarrow> string option \<Rightarrow> string \<Rightarrow> DateTime option" where
  "parse_spec L tz str =
     map_option (startOf_day L)
       (find isValid (parse_candidates L (or_default tz ''Europe/London'') (trim str)))"

section \<open>extractCollections\<close>

text \<open>
  \<open>frame\<close> is what the two \<^verbatim>\<open>frame.evaluate\<close> calls return from the browser: the rows
  of the first table that has rows (date text, bin text), the markup of that table, and
  \<^verbatim>\<open>document.body.innerText\<close>.
\<close>

record frame =
  tableData_rows :: "(string \<times> string) list"
  tableData_html :: "string option"
  body_innerText :: string

record CollectionEntry =
  localDate :: string
  bins :: "string list"

record scrape_result =
  collections :: "CollectionEntry list"
  tableHtml :: "string option"

text \<open>The loop over \<^verbatim>\<open>tableData.rows\<close> that fills \<^verbatim>\<open>byDateFromTables\<close>.\<close>

fun byDateFromTables ::
  "luxon \<Rightarrow> string option \<Rightarrow> (string \<times> string list) list \<Rightarrow> (string \<times> string) list
    \<Rightarrow> (string \<times> string list) list" where
  "byDateFromTables L tz m [] = m"
| "byDateFromTables L tz m ((dateText, binsText) # rows) =
     (case parseDateToLocal L tz dateText of
        None \<Rightarrow> byDateFromTables L tz m rows
      | Some dt \<Rightarrow>
          if \<not> truthy binsText then byDateFromTables L tz m rows
          else let ld = toISODate dt;
                   existing = (case Map_get m ld of None \<Rightarrow> [] | Some e \<Rightarrow> e)
               in if binsText \<in> set existing then byDateFromTables L tz m rows
                  else byDateFromTables L tz (Map_set m ld (existing @ [binsText])) rows)"

text \<open>\<^verbatim>\<open>Array.from(m.entries()).map(([localDate, bins]) => ({ localDate, bins }))\<close>\<close>

definition entries_of :: "(string \<times> string list) list \<Rightarrow> CollectionEntry list" where
  "entries_of m = map (\<lambda>(ld, bs). \<lparr>localDate = ld, bins = bs\<rparr>) m"

text \<open>\<^verbatim>\<open>tableData.html?.trim() || null\<close>\<close>

definition tableHtml_of :: "string option \<Rightarrow> string option" where
  "tableHtml_of html = js_or (map_option trim html) None"

text \<open>\<^verbatim>\<open>raw.split(/\n+/).map(s => s.trim()).filter(Boolean)\<close>\<close>

definition text_lines :: "string \<Rightarrow> string list" where
  "text_lines raw = filter truthy (map trim (split_newlines [] raw))"

text \<open>\<^verbatim>\<open>[lines[i - 1], lines[i], lines[i + 1]].filter(Boolean).join(' ')\<close>\<close>

definition ctx_window :: "string list \<Rightarrow> nat \<Rightarrow> string" where
  "ctx_window lines i =
     join '' ''
       (filter truthy
          (concat (map (\<lambda>j. case at_index lines j of None \<Rightarrow> [] | Some l \<Rightarrow> [l])
             [int i - 1, int i, int i + 1])))"

text \<open>The body of the loop over the lines: what line \<open>i\<close> pushes to \<^verbatim>\<open>results\<close>.\<close>

definition scan_line :: "luxon \<Rightarrow> string option \<Rightarrow> string list \<Rightarrow> nat \<Rightarrow> (string \<times> string list) list" where
  "scan_line L tz lines i =
     (if re_test dateRegex (lines ! i) then
        (let dateStr = (case re_exec dateRegex (lines ! i) of None \<Rightarrow> [] | Some m \<Rightarrow> m);
             ctx = ctx_window lines i
         in case parseDateToLocal L tz dateStr of
              None \<Rightarrow> []
            | Some dt \<Rightarrow> [(toISODate dt, [ctx])])
      else [])"

definition scan_results :: "luxon \<Rightarrow> string option \<Rightarrow> string list \<Rightarrow> (string \<times> string list) list" where
  "scan_results L tz lines = concat (map (scan_line L tz lines) [0..<length lines])"

text \<open>The loop over \<^verbatim>\<open>results\<close> that fills \<^verbatim>\<open>byDate\<close>.\<close>

fun byDate ::
  "(string \<times> string list) list \<Rightarrow> (string \<times> string list) list \<Rightarrow> (string \<times> string list) list" where
  "byDate m [] = m"
| "byDate m ((ld, bs) # rs) =
     (let existing = (case Map_get m ld of None \<Rightarrow> [] | Some e \<Rightarrow> e)
      in byDate (Map_set m ld (Array_from_Set (existing @ bs))) rs)"

definition extractCollections :: "luxon \<Rightarrow> string option \<Rightarrow> frame \<Rightarrow> scrape_result" where
  "extractCollections L tz fr =
     (let fromTables = byDateFromTables L tz [] (tableData_rows fr)
      in if length fromTables > 0
         then \<lparr>collections = entries_of fromTables, tableHtml = tableHtml_of (tableData_html fr)\<rparr>
         else (let lines = text_lines (body_innerText fr);
                   results = scan_results L tz lines
               in \<lparr>collections = entries_of (byDate [] results),
                   tableHtml = tableHtml_of (tableData_html fr)\<rparr>))"

section \<open>The collaborators of exports.daily\<close>

text \<open>
  A JavaScript exception is a value \<open>Error msg\<close>; a call that may throw returns
  \<open>error + 'a\<close> (or \<open>error option\<close> when it returns nothing), so that every
  \<^verbatim>\<open>try\<close>/\<^verbatim>\<open>catch\<close> of the handler is a case distinction.
\<close>

datatype error = Error string

record address =
  label :: string
  recipients :: "string list"

text \<open>
  \<open>config_json\<close> is the parsed \<^verbatim>\<open>config/recipients.json\<close>; \<open>cfg_addresses\<close> is \<open>None\<close>
  when \<^verbatim>\<open>addresses\<close> is missing or not an array. \<open>config\<close> is what \<^verbatim>\<open>loadConfig\<close>
  returns once it has checked that. Every address has a string \<^verbatim>\<open>label\<close> and an array of
  strings \<^verbatim>\<open>recipients\<close>.
\<close>

record config_json =
  cfg_timezone :: "string option"
  cfg_messageSuffix :: "string option"
  cfg_addresses :: "address list option"

record config =
  timezone :: "string option"
  notify_messageSuffix :: "string option"
  addresses :: "address list"

text \<open>What \<^verbatim>\<open>getGmailCredentials\<close> returns (it catches its own errors).\<close>

record credentials =
  clientId :: "string option"
  clientSecret :: "string option"
  refreshToken :: "string option"
  sender :: "string option"

text \<open>An item of the DynamoDB table \<^verbatim>\<open>STATE_TABLE\<close>, keyed by \<^verbatim>\<open>addressHash\<close>.\<close>

record item =
  lastNotifiedForLocalDate :: "string option"
  lastSnapshot :: "string option"
  updatedAt :: "string option"

type_synonym store = "string \<Rightarrow> item option"

text \<open>
  The environment of one invocation: the configuration file, the process environment,
  and the outcome of every call that leaves the process. \<open>navigate\<close> is the part of
  \<^verbatim>\<open>scrapeNextCollections\<close> that drives the browser up to the rendered results,
  \<open>page_close\<close> its \<^verbatim>\<open>finally\<close>; \<open>getItem_error\<close> and \<open>updateItem_error\<close> say for which
  key \<^verbatim>\<open>dynamo.send\<close> throws; \<open>gmail_send\<close> is \<^verbatim>\<open>gmail.users.messages.send\<close> for a
  recipient, subject and plain text (the HTML body is built from the same values and
  enters no decision); \<open>dadJoke\<close> is what \<^verbatim>\<open>dadJokePromise\<close> resolves to.
\<close>

record env =
  lux :: luxon
  TZ :: "string option"
  MESSAGE_SUFFIX :: "string option"
  readConfigFile :: "error + config_json"
  launchBrowser :: "error option"
  browser_close :: "error option"
  navigate :: "string \<Rightarrow> error + frame"
  page_close :: "string \<Rightarrow> error option"
  sha256 :: "string \<Rightarrow> string"
  getItem_error :: "string \<Rightarrow> error option"
  updateItem_error :: "string \<Rightarrow> error option"
  getGmailCredentials :: credentials
  gmail_send :: "string \<Rightarrow> string \<Rightarrow> string \<Rightarrow> error option"
  dadJoke :: "string option"
  JSON_stringify :: "scrape_result \<Rightarrow> string"
  new_Date_toISOString :: string

text \<open>
  What the run does to the outside, in order: an email handed to Gmail, an email
  skipped for missing credentials (\<^verbatim>\<open>sendEmail\<close> returns without sending), a send that
  threw, and the write of the notification state, done or failed.
\<close>

datatype event =
    EmailSent string string string
  | EmailDryRun string string string
  | EmailFailed string string string
  | StateWritten string string
  | StateWriteFailed string string

record response =
  statusCode :: nat
  body :: string

section \<open>The functions of the handler\<close>

definition loadConfig :: "env \<Rightarrow> error + config" where
  "loadConfig e =
     (case readConfigFile e of
        Inl err \<Rightarrow> Inl err
      | Inr cfg \<Rightarrow>
          (case cfg_addresses cfg of
             None \<Rightarrow> Inl (Error ''config.addresses must be an array'')
           | Some as \<Rightarrow>
               Inr \<lparr>timezone = cfg_timezone cfg, notify_messageSuffix = cfg_messageSuffix cfg,
                    addresses = as\<rparr>))"

definition scrapeNextCollections :: "env \<Rightarrow> string \<Rightarrow> error + scrape_result" where
  "scrapeNextCollections e addressLabel =
     (case navigate e addressLabel of
        Inl err \<Rightarrow> Inl err
      | Inr fr \<Rightarrow>
          (let r = extractCollections (lux e) (TZ e) fr
           in case page_close e addressLabel of Some err \<Rightarrow> Inl err | None \<Rightarrow> Inr r))"

definition wasNotifiedForDate :: "env \<Rightarrow> store \<Rightarrow> string \<Rightarrow> string \<Rightarrow> error + bool" where
  "wasNotifiedForDate e st addressHash ld =
     (case getItem_error e addressHash of
        Some err \<Rightarrow> Inl err
      | None \<Rightarrow>
          (let last = (case st addressHash of None \<Rightarrow> None | Some it \<Rightarrow> lastNotifiedForLocalDate it)
           in Inr (last = Some ld)))"

definition markNotified :: "env \<Rightarrow> store \<Rightarrow> string \<Rightarrow> string \<Rightarrow> scrape_result \<Rightarrow> error + store" where
  "markNotified e st addressHash ld snapshot =
     (case updateItem_error e addressHash of
        Some err \<Rightarrow> Inl err
      | None \<Rightarrow>
          Inr (st(addressHash \<mapsto>
                 \<lparr>lastNotifiedForLocalDate = Some ld,
                  lastSnapshot = Some (take 3500 (JSON_stringify e snapshot)),
                  updatedAt = Some (new_Date_toISOString e)\<rparr>)))"

text \<open>
  \<^verbatim>\<open>sendEmail\<close>: \<open>Inr False\<close> is the return without sending when a credential is
  missing, \<open>Inr True\<close> the return after Gmail took the message.
\<close>

definition missing :: "string option \<Rightarrow> bool" where
  "missing v = (case v of None \<Rightarrow> True | Some s \<Rightarrow> \<not> truthy s)"

definition sendEmail :: "env \<Rightarrow> string \<Rightarrow> string \<Rightarrow> string \<Rightarrow> error + bool" where
  "sendEmail e toEmail subject text =
     (let c = getGmailCredentials e
      in if missing (clientId c) \<or> missing (clientSecret c) \<or> missing (refreshToken c)
            \<or> missing (sender c)
         then Inr False
         else (case gmail_send e toEmail subject text of
                 Some err \<Rightarrow> Inl err
               | None \<Rightarrow> Inr True))"

text \<open>The decimal digits of a number, as a template literal prints it.\<close>

function show_nat :: "nat \<Rightarrow> string" where
  "show_nat n =
     (if n < 10 then [char_of (48 + n)] else show_nat (n div 10) @ [char_of (48 + n mod 10)])"
  by pat_completeness auto
termination
  by (relation "measure (\<lambda>n. n)") auto

definition formatUKDate :: "luxon \<Rightarrow> string \<Rightarrow> string" where
  "formatUKDate L dateStr =
     (let dt = fromISO L dateStr None
      in if \<not> isValid dt then dateStr
         else (let d = day dt;
                   suffix = (if d = 1 \<or> d = 21 \<or> d = 31 then ''st''
                             else if d = 2 \<or> d = 22 then ''nd''
                             else if d = 3 \<or> d = 23 then ''rd'' else ''th'')
               in show_nat d @ suffix @ '' '' @ toFormat_MMMM_yyyy dt))"

text \<open>
  \<^verbatim>\<open>upcoming\<close>: the entries with their parsed dates, those valid and not before the start
  of today, sorted by date. \<^verbatim>\<open>Array.prototype.sort\<close> is stable, as \<open>sort_key\<close> is.
\<close>

definition upcoming :: "luxon \<Rightarrow> DateTime \<Rightarrow> CollectionEntry list \<Rightarrow> (CollectionEntry \<times> DateTime) list" where
  "upcoming L now cs =
     sort_key (\<lambda>c. valueOf (snd c))
       (filter (\<lambda>c. isValid (snd c) \<and> valueOf (snd c) \<ge> valueOf (startOf_day L now))
          (map (\<lambda>c. (c, fromISO L (localDate c) None)) cs))"

definition hasTomorrow :: "CollectionEntry list \<Rightarrow> string \<Rightarrow> bool" where
  "hasTomorrow cs tomorrow = list_ex (\<lambda>c. localDate c = tomorrow) cs"

definition announceDate :: "luxon \<Rightarrow> bool \<Rightarrow> DateTime \<Rightarrow> string \<Rightarrow> CollectionEntry list \<Rightarrow> string" where
  "announceDate L forceNotify now tomorrow cs =
     (if forceNotify \<and> \<not> hasTomorrow cs tomorrow
      then (case upcoming L now cs of [] \<Rightarrow> tomorrow | u # _ \<Rightarrow> localDate (fst u))
      else tomorrow)"

text \<open>\<^verbatim>\<open>binsForAnnounce\<close>, \<^verbatim>\<open>uniqueBins\<close>, \<^verbatim>\<open>announceDetails\<close> and \<^verbatim>\<open>binsText\<close>.\<close>

definition binsForAnnounce :: "CollectionEntry list \<Rightarrow> string \<Rightarrow> string list" where
  "binsForAnnounce cs ad = concat (map bins (filter (\<lambda>c. localDate c = ad) cs))"

definition uniqueBins :: "CollectionEntry list \<Rightarrow> string \<Rightarrow> string list" where
  "uniqueBins cs ad = Array_from_Set (binsForAnnounce cs ad)"

definition announceDetails :: "CollectionEntry list \<Rightarrow> string \<Rightarrow> string" where
  "announceDetails cs ad =
     join '' | '' (map (\<lambda>c. join '', '' (bins c)) (filter (\<lambda>c. localDate c = ad) cs))"

definition binsText :: "CollectionEntry list \<Rightarrow> string \<Rightarrow> string" where
  "binsText cs ad =
     (if truthy (announceDetails cs ad) then announceDetails cs ad
      else join '' + '' (uniqueBins cs ad))"

definition messageSuffix :: "env \<Rightarrow> config \<Rightarrow> string" where
  "messageSuffix e cfg = or_default (js_or (notify_messageSuffix cfg) (MESSAGE_SUFFIX e)) []"

definition summaryLine :: "luxon \<Rightarrow> string \<Rightarrow> string \<Rightarrow> string \<Rightarrow> CollectionEntry list \<Rightarrow> string" where
  "summaryLine L lbl tomorrow ad cs =
     (let ukFormattedDate = formatUKDate L ad;
          whenText = (if ad = tomorrow then ''tomorrow'' else ''on '' @ ukFormattedDate)
      in ''Collection '' @ whenText @ '' for '' @ lbl @ '' ('' @ ukFormattedDate @ ''): ''
           @ binsText cs ad)"

definition msg_text :: "env \<Rightarrow> config \<Rightarrow> string \<Rightarrow> string \<Rightarrow> string \<Rightarrow> CollectionEntry list \<Rightarrow> string" where
  "msg_text e cfg lbl tomorrow ad cs =
     (let textParts = [summaryLine (lux e) lbl tomorrow ad cs, messageSuffix e cfg]
            @ (case dadJoke e of
                 None \<Rightarrow> []
               | Some j \<Rightarrow> if truthy j then [''Dad joke of the day: '' @ j] else [])
      in trim (join [CHR 0x0A, CHR 0x0A] (filter truthy textParts)))"

definition subject_text :: "luxon \<Rightarrow> string \<Rightarrow> string \<Rightarrow> CollectionEntry list \<Rightarrow> string" where
  "subject_text L lbl ad cs =
     binsText cs ad @ '' collection on '' @ formatUKDate L ad @ '' - '' @ lbl"

definition emailLike :: "string \<Rightarrow> bool" where
  "emailLike v = re_test emailRegex v"

text \<open>The loop over \<^verbatim>\<open>toList\<close>: every send is tried, a throw is caught and logged.\<close>

fun send_all :: "env \<Rightarrow> string \<Rightarrow> string \<Rightarrow> string list \<Rightarrow> event list" where
  "send_all e subject msg [] = []"
| "send_all e subject msg (email # rest) =
     (case sendEmail e email subject msg of
        Inl err \<Rightarrow> EmailFailed email subject msg
      | Inr sent \<Rightarrow> if sent then EmailSent email subject msg else EmailDryRun email subject msg)
     # send_all e subject msg rest"

text \<open>
  The body of the loop over the addresses: the state store after it and the events of
  this address. A \<^verbatim>\<open>continue\<close> leaves the store as it is and adds no event.
\<close>

definition process_address ::
  "env \<Rightarrow> config \<Rightarrow> bool \<Rightarrow> DateTime \<Rightarrow> string \<Rightarrow> store \<Rightarrow> address \<Rightarrow> store \<times> event list" where
  "process_address e cfg forceNotify now tomorrow st a =
     (case scrapeNextCollections e (label a) of
        Inl err \<Rightarrow> (st, [])
      | Inr result \<Rightarrow>
          if \<not> forceNotify \<and> \<not> hasTomorrow (collections result) tomorrow then (st, [])
          else
            (let addressHash = sha256 e (label a);
                 alreadyNotified =
                   (if \<not> forceNotify
                    then (case wasNotifiedForDate e st addressHash tomorrow of
                            Inl err \<Rightarrow> False
                          | Inr b \<Rightarrow> b)
                    else False)
             in if \<not> forceNotify \<and> alreadyNotified then (st, [])
                else
                  (let ad = announceDate (lux e) forceNotify now tomorrow (collections result);
                       isTomorrow = (ad = tomorrow);
                       msg = msg_text e cfg (label a) tomorrow ad (collections result);
                       subject = subject_text (lux e) (label a) ad (collections result);
                       toList = filter emailLike (recipients a);
                       sends = (if length toList = 0 then [] else send_all e subject msg toList)
                   in if \<not> forceNotify \<and> isTomorrow
                      then (case markNotified e st addressHash tomorrow result of
                              Inl err \<Rightarrow> (st, sends @ [StateWriteFailed addressHash tomorrow])
                            | Inr st' \<Rightarrow> (st', sends @ [StateWritten addressHash tomorrow]))
                      else (st, sends))))"

fun address_loop ::
  "env \<Rightarrow> config \<Rightarrow> bool \<Rightarrow> DateTime \<Rightarrow> string \<Rightarrow> store \<Rightarrow> address list \<Rightarrow> store \<times> event list" where
  "address_loop e cfg forceNotify now tomorrow st [] = (st, [])"
| "address_loop e cfg forceNotify now tomorrow st (a # as) =
     (let r = process_address e cfg forceNotify now tomorrow st a;
          r' = address_loop e cfg forceNotify now tomorrow (fst r) as
      in (fst r', snd r @ snd r'))"

text \<open>\<^verbatim>\<open>now\<close> and \<^verbatim>\<open>tomorrow\<close> of \<^verbatim>\<open>exports.daily\<close>.\<close>

definition run_now :: "env \<Rightarrow> config \<Rightarrow> DateTime" where
  "run_now e cfg =
     now_setZone (lux e) (or_default (js_or (timezone cfg) (TZ e)) ''Europe/London'')"

definition run_tomorrow :: "env \<Rightarrow> config \<Rightarrow> string" where
  "run_tomorrow e cfg = toISODate (plus_days (lux e) (run_now e cfg) 1)"

text \<open>
  \<^verbatim>\<open>exports.daily\<close>; \<open>forceNotify\<close> is the value of \<^verbatim>\<open>getForceNotify(event)\<close>. The result
  is what the handler returns or throws, the state store after the run and the events of
  the run. The browser is closed in the \<^verbatim>\<open>finally\<close> of the loop; a throw there is the
  outcome of the handler.
\<close>

definition daily :: "env \<Rightarrow> bool \<Rightarrow> store \<Rightarrow> (error + response) \<times> store \<times> event list" where
  "daily e forceNotify st =
     (case loadConfig e of
        Inl err \<Rightarrow> (Inl err, st, [])
      | Inr cfg \<Rightarrow>
          (let now = run_now e cfg;
               tomorrow = run_tomorrow e cfg
           in case launchBrowser e of
                Some err \<Rightarrow> (Inl err, st, [])
              | None \<Rightarrow>
                  (let r = address_loop e cfg forceNotify now tomorrow st (addresses cfg)
                   in case browser_close e of
                        Some err \<Rightarrow> (Inl err, fst r, snd r)
                      | None \<Rightarrow> (Inr \<lparr>statusCode = 200, body = ''ok''\<rparr>, fst r, snd r))))"

section \<open>Notions of the specification\<close>

text \<open>
  The specification speaks of a list with duplicates removed and the order of first
  appearance kept: the head stays, its later copies go.
\<close>

fun first_seen :: "'a list \<Rightarrow> 'a list" where
  "first_seen [] = []"
| "first_seen (x # xs) = x # filter (\<lambda>y. y \<noteq> x) (first_seen xs)"

text \<open>
  The calendar date a table row resolves to (no date when its date text does not parse;
  \<^verbatim>\<open>extractRows\<close> keeps only rows whose two cells are not empty), and the bin texts of
  the rows of a date, in the order of the table.
\<close>

definition row_date :: "luxon \<Rightarrow> string option \<Rightarrow> string \<times> string \<Rightarrow> string option" where
  "row_date L tz r =
     (case parseDateToLocal L tz (fst r) of
        None \<Rightarrow> None
      | Some dt \<Rightarrow> if truthy (snd r) then Some (toISODate dt) else None)"

definition bins_of_date :: "luxon \<Rightarrow> string option \<Rightarrow> (string \<times> string) list \<Rightarrow> string \<Rightarrow> string list" where
  "bins_of_date L tz rows ld = map snd (filter (\<lambda>r. row_date L tz r = Some ld) rows)"

text \<open>\<^verbatim>\<open>m.get(ld) || []\<close>\<close>

definition existing_or_empty :: "(string \<times> string list) list \<Rightarrow> string \<Rightarrow> string list" where
  "existing_or_empty m ld = (case Map_get m ld of None \<Rightarrow> [] | Some e \<Rightarrow> e)"

text \<open>
  The calendar date line \<open>i\<close> of the page text resolves to: the line matches the loose
  date pattern and the matched text parses. The context windows of the lines of a date,
  in the order of the lines.
\<close>

definition line_date :: "luxon \<Rightarrow> string option \<Rightarrow> string list \<Rightarrow> nat \<Rightarrow> string option" where
  "line_date L tz lines i =
     (case re_exec dateRegex (lines ! i) of
        None \<Rightarrow> None
      | Some dateStr \<Rightarrow> map_option toISODate (parseDateToLocal L tz dateStr))"

definition windows_of_date :: "luxon \<Rightarrow> string option \<Rightarrow> string list \<Rightarrow> string \<Rightarrow> string list" where
  "windows_of_date L tz lines ld =
     map (ctx_window lines) (filter (\<lambda>i. line_date L tz lines i = Some ld) [0..<length lines])"

text \<open>An entry whose date is valid and on or after the start of today.\<close>

definition on_or_after_today :: "luxon \<Rightarrow> DateTime \<Rightarrow> CollectionEntry \<Rightarrow> bool" where
  "on_or_after_today L now c =
     (isValid (fromISO L (localDate c) None)
      \<and> valueOf (startOf_day L now) \<le> valueOf (fromISO L (localDate c) None))"

text \<open>The recipient of a send, for the events that are sends.\<close>

fun email_to :: "event \<Rightarrow> string option" where
  "email_to (EmailSent t s x) = Some t"
| "email_to (EmailDryRun t s x) = Some t"
| "email_to (EmailFailed t s x) = Some t"
| "email_to (StateWritten h d) = None"
| "email_to (StateWriteFailed h d) = None"

section \<open>A sample environment\<close>

text \<open>
  Concrete values on which the theorems are instantiated: dates of September 2025 in
  Europe/London (midnight local time in epoch milliseconds), a date library that knows
  these dates only (in the formats \<^verbatim>\<open>d/M/yyyy\<close> and ISO), one address with an email
  recipient and a phone number, a state store that works, and Gmail credentials that are
  present. The run is at noon of the 10th, so that tomorrow is the 11th. The hash of a
  label is written as the label behind \<^verbatim>\<open>#\<close>, and the snapshot as \<^verbatim>\<open>{}\<close>: no
  theorem reads either.
\<close>

definition invalid_date :: DateTime where
  "invalid_date = \<lparr>isValid = False, valueOf = 0, toISODate = [], day = 0, toFormat_MMMM_yyyy = []\<rparr>"

definition sample_date :: "string \<Rightarrow> int \<Rightarrow> nat \<Rightarrow> DateTime" where
  "sample_date isod ms d =
     \<lparr>isValid = True, valueOf = ms, toISODate = isod, day = d,
      toFormat_MMMM_yyyy = ''September 2025''\<rparr>"

definition sample_calendar :: "(string \<times> string \<times> DateTime) list" where
  "sample_calendar =
     [(''2025-09-04'', ''04/09/2025'', sample_date ''2025-09-04'' 1756940400000 4),
      (''2025-09-10'', ''10/09/2025'', sample_date ''2025-09-10'' 1757458800000 10),
      (''2025-09-11'', ''11/09/2025'', sample_date ''2025-09-11'' 1757545200000 11),
      (''2025-09-12'', ''12/09/2025'', sample_date ''2025-09-12'' 1757631600000 12),
      (''2025-09-14'', ''14/09/2025'', sample_date ''2025-09-14'' 1757804400000 14)]"

definition by_iso :: "string \<Rightarrow> DateTime" where
  "by_iso s =
     (case map_of (map (\<lambda>r. (fst r, snd (snd r))) sample_calendar) s of
        None \<Rightarrow> invalid_date | Some t \<Rightarrow> t)"

definition by_dmy :: "string \<Rightarrow> DateTime" where
  "by_dmy s =
     (case map_of (map (\<lambda>r. (fst (snd r), snd (snd r))) sample_calendar) s of
        None \<Rightarrow> invalid_date | Some t \<Rightarrow> t)"

definition sample_now :: DateTime where
  "sample_now = sample_date ''2025-09-10'' 1757502000000 10"

definition sample_luxon :: luxon where
  "sample_luxon =
     \<lparr>fromFormat = (\<lambda>s fmt zone. if fmt = ''d/M/yyyy'' then by_dmy s else invalid_date),
      fromISO = (\<lambda>s zone. by_iso s),
      startOf_day = (\<lambda>dt. by_iso (toISODate dt)),
      plus_days = (\<lambda>dt n. if toISODate dt = ''2025-09-10'' \<and> n = 1
                           then sample_date ''2025-09-11'' (valueOf dt + 86400000) 11
                           else invalid_date),
      now_setZone = (\<lambda>zone. sample_now)\<rparr>"

definition sample_address :: address where
  "sample_address = \<lparr>label = ''10 Example Road'', recipients = [''+447700900001'', ''a@b.co'']\<rparr>"

definition sample_frame :: frame where
  "sample_frame =
     \<lparr>tableData_rows = [(''11/09/2025'', ''General Waste''), (''11/09/2025'', ''Food Waste''),
                         (''11/09/2025'', ''General Waste''), (''14/09/2025'', ''Recycling'')],
      tableData_html = Some ''<table id=table2></table>'',
      body_innerText = []\<rparr>"

definition sample_env :: env where
  "sample_env =
     \<lparr>lux = sample_luxon,
      TZ = Some ''Europe/London'',
      MESSAGE_SUFFIX = None,
      readConfigFile = Inr \<lparr>cfg_timezone = Some ''Europe/London'',
                             cfg_messageSuffix = Some ''Put bins out.'',
                             cfg_addresses = Some [sample_address]\<rparr>,
      launchBrowser = None,
      browser_close = None,
      navigate = (\<lambda>l. Inr sample_frame),
      page_close = (\<lambda>l. None),
      sha256 = (\<lambda>s. ''#'' @ s),
      getItem_error = (\<lambda>k. None),
      updateItem_error = (\<lambda>k. None),
      getGmailCredentials = \<lparr>clientId = Some ''id'', clientSecret = Some ''secret'',
                              refreshToken = Some ''token'', sender = Some ''bins@b.co''\<rparr>,
      gmail_send = (\<lambda>to subject text. None),
      dadJoke = None,
      JSON_stringify = (\<lambda>r. ''{}''),
      new_Date_toISOString = ''2025-09-10T11:00:00.000Z''\<rparr>"

definition sample_config :: config where
  "sample_config =
     \<lparr>timezone = Some ''Europe/London'', notify_messageSuffix = Some ''Put bins out.'',
      addresses = [sample_address]\<rparr>"

definition notified :: "string \<Rightarrow> item" where
  "notified d = \<lparr>lastNotifiedForLocalDate = Some d, lastSnapshot = Some ''{}'',
                 updatedAt = Some ''2025-09-10T11:00:00.000Z''\<rparr>"

text \<open>Gmail refuses every message.\<close>

definition sample_env_gmail_down :: env where
  "sample_env_gmail_down = sample_env\<lparr>gmail_send := (\<lambda>to subject text. Some (Error ''quota''))\<rparr>"

text \<open>The page shows one collection, a week ago.\<close>

definition past_frame :: frame where
  "past_frame = sample_frame\<lparr>tableData_rows := [(''04/09/2025'', ''General Waste'')]\<rparr>"

definition sample_env_past :: env where
  "sample_env_past = sample_env\<lparr>navigate := (\<lambda>l. Inr past_frame)\<rparr>"

text \<open>The state store is down for reads, for writes.\<close>

definition sample_env_read_down :: env where
  "sample_env_read_down = sample_env\<lparr>getItem_error := (\<lambda>k. Some (Error ''dynamo''))\<rparr>"

definition sample_env_write_down :: env where
  "sample_env_write_down = sample_env\<lparr>updateItem_error := (\<lambda>k. Some (Error ''dynamo''))\<rparr>"

text \<open>The address of the configuration has phone numbers only.\<close>

definition phone_address :: address where
  "phone_address = \<lparr>label = ''10 Example Road'', recipients = [''+447700900001'']\<rparr>"

text \<open>A store that holds the notification of a date for the sample address.\<close>

definition sample_store :: "string \<Rightarrow> store" where
  "sample_store d = [''#10 Example Road'' \<mapsto> notified d]"

text \<open>Schedules without an entry for the 11th: one in the past, one with later dates.\<close>

definition past_schedule :: "CollectionEntry list" where
  "past_schedule = [\<lparr>localDate = ''2025-09-04'', bins = [''General Waste'']\<rparr>]"

definition later_schedule :: "CollectionEntry list" where
  "later_schedule =
     [\<lparr>localDate = ''2025-09-04'', bins = [''General Waste'']\<rparr>,
      \<lparr>localDate = ''2025-09-14'', bins = [''Recycling'']\<rparr>,
      \<lparr>localDate = ''2025-09-12'', bins = [''Food Waste'']\<rparr>]"

text \<open>Two addresses; the form does not render for the first.\<close>

definition broken_address :: address where
  "broken_address = \<lparr>label = ''1 Broken Lane'', recipients = [''c@d.org'']\<rparr>"

definition sample_env_two :: env where
  "sample_env_two =
     sample_env
       \<lparr>readConfigFile := Inr \<lparr>cfg_timezone = Some ''Europe/London'',
                                cfg_messageSuffix = Some ''Put bins out.'',
                                cfg_addresses = Some [broken_address, sample_address]\<rparr>,
        navigate := (\<lambda>l. if l = ''1 Broken Lane''
                           then Inl (Error ''Results table did not render in time'')
                           else Inr sample_frame),
        gmail_send := (\<lambda>to subject text. Some (Error ''quota'')),
        updateItem_error := (\<lambda>k. Some (Error ''dynamo''))\<rparr>"

text \<open>The browser is launched and cannot be closed.\<close>

definition sample_env_close_down :: env where
  "sample_env_close_down =
     sample_env\<lparr>browser_close := Some (Error ''Protocol error: Connection closed'')\<rparr>"

text \<open>
  Page text with no-break spaces: a line that holds nothing else, and a date written
  with them.
\<close>

definition sample_nbsp_frame :: frame where
  "sample_nbsp_frame =
     \<lparr>tableData_rows = [],
      tableData_html = None,
      body_innerText = [CHR 0xA0, CHR 0x0A] @ ''11/09/2025'' @ [CHR 0xA0, CHR 0x0A] @ ''x''\<rparr>"

definition sample_nbsp_line :: string where
  "sample_nbsp_line = ''on 5'' @ [CHR 0xA0] @ ''Sep'' @ [CHR 0xA0] @ ''2025''"

definition sample_text_frame :: frame where
  "sample_text_frame =
     \<lparr>tableData_rows = [],
      tableData_html = None,
      body_innerText = ''Your next collections\<newline>Thursday 11/09/2025\<newline>General Waste\<newline>\<newline>99/99/2025\<newline>Friday 12/09/2025''\<rparr>"

section \<open>Sets and maps in insertion order\<close>

lemma Set_add_all_first_seen:
  "Set_add_all acc xs = acc @ filter (\<lambda>y. y \<notin> set acc) (first_seen xs)"
proof (induction xs arbitrary: acc)
  case Nil
  then show ?case by simp
next
  case (Cons x xs)
  show ?case
  proof (cases "x \<in> set acc")
    case True
    then have "filter (\<lambda>y. y \<notin> set acc) (filter (\<lambda>y. y \<noteq> x) (first_seen xs))
               = filter (\<lambda>y. y \<notin> set acc) (first_seen xs)"
      by (auto intro: filter_cong)
    with True Cons show ?thesis by simp
  next
    case False
    have "filter (\<lambda>y. y \<notin> set (acc @ [x])) (first_seen xs)
          = filter (\<lambda>y. y \<notin> set acc) (filter (\<lambda>y. y \<noteq> x) (first_seen xs))"
      by (auto intro: filter_cong)
    with False Cons show ?thesis by simp
  qed
qed

lemma Array_from_Set_first_seen: "Array_from_Set xs = first_seen xs"
  by (simp add: Array_from_Set_def Set_add_all_first_seen)

lemma set_first_seen: "set (first_seen xs) = set xs"
  by (induction xs) auto

lemma distinct_first_seen: "distinct (first_seen xs)"
  by (induction xs) (auto simp: set_first_seen)

lemma first_seen_distinct_id: "distinct xs \<Longrightarrow> first_seen xs = xs"
proof (induction xs)
  case Nil
  then show ?case by simp
next
  case (Cons x xs)
  then have "filter (\<lambda>y. y \<noteq> x) xs = xs"
    by (auto intro: filter_True)
  with Cons show ?case by simp
qed

lemma Set_add_all_append: "Set_add_all acc (xs @ ys) = Set_add_all (Set_add_all acc xs) ys"
  by (induction xs arbitrary: acc) auto

lemma Map_get_Map_set: "Map_get (Map_set m k v) k' = (if k' = k then Some v else Map_get m k')"
  by (simp add: Map_get_def Map_set_def update_conv')

lemma distinct_Map_set: "distinct (map fst m) \<Longrightarrow> distinct (map fst (Map_set m k v))"
  by (simp add: Map_set_def distinct_update)

lemma distinct_byDateFromTables:
  "distinct (map fst m) \<Longrightarrow> distinct (map fst (byDateFromTables L tz m rows))"
proof (induction rows arbitrary: m)
  case Nil
  then show ?case by simp
next
  case (Cons r rows)
  obtain dtext btext where r: "r = (dtext, btext)" by (cases r)
  show ?case
    using Cons by (auto simp: r Let_def distinct_Map_set split: option.splits)
qed

lemma existing_or_empty_Map_set:
  "existing_or_empty (Map_set m k v) k' = (if k' = k then v else existing_or_empty m k')"
  by (simp add: existing_or_empty_def Map_get_Map_set)

lemma byDateFromTables_step:
  "byDateFromTables L tz m ((dtext, btext) # rows) =
     (case parseDateToLocal L tz dtext of
        None \<Rightarrow> byDateFromTables L tz m rows
      | Some dt \<Rightarrow>
          if \<not> truthy btext \<or> btext \<in> set (existing_or_empty m (toISODate dt))
          then byDateFromTables L tz m rows
          else byDateFromTables L tz
                 (Map_set m (toISODate dt) (existing_or_empty m (toISODate dt) @ [btext])) rows)"
  by (simp add: existing_or_empty_def Let_def split: option.splits)

lemma Map_get_byDateFromTables:
  "Map_get (byDateFromTables L tz m rows) ld =
     (if Map_get m ld = None \<and> bins_of_date L tz rows ld = [] then None
      else Some (Set_add_all (existing_or_empty m ld) (bins_of_date L tz rows ld)))"
proof (induction rows arbitrary: m)
  case Nil
  then show ?case
    by (simp add: bins_of_date_def existing_or_empty_def split: option.splits)
next
  case (Cons r rows)
  obtain dtext btext where r: "r = (dtext, btext)" by (cases r)
  show ?case
  proof (cases "row_date L tz r")
    case None
    then have skip: "byDateFromTables L tz m (r # rows) = byDateFromTables L tz m rows"
      by (auto simp: r row_date_def split: option.splits if_splits)
    from None have "bins_of_date L tz (r # rows) ld = bins_of_date L tz rows ld"
      by (simp add: bins_of_date_def)
    with skip Cons show ?thesis by simp
  next
    case (Some d)
    then obtain dt where dt: "parseDateToLocal L tz dtext = Some dt" "toISODate dt = d"
      "truthy btext"
      by (auto simp: r row_date_def split: option.splits if_splits)
    show ?thesis
    proof (cases "btext \<in> set (existing_or_empty m d)")
      case True
      with dt have skip: "byDateFromTables L tz m (r # rows) = byDateFromTables L tz m rows"
        by (simp add: r byDateFromTables_step del: byDateFromTables.simps)
      show ?thesis
      proof (cases "d = ld")
        case True
        with Some have b: "bins_of_date L tz (r # rows) ld = btext # bins_of_date L tz rows ld"
          by (simp add: bins_of_date_def r)
        from True \<open>btext \<in> set (existing_or_empty m d)\<close> have ne: "Map_get m ld \<noteq> None"
          by (cases "Map_get m ld") (auto simp: existing_or_empty_def)
        from True \<open>btext \<in> set (existing_or_empty m d)\<close> ne show ?thesis
          by (simp add: skip Cons b)
      next
        case False
        with Some have "bins_of_date L tz (r # rows) ld = bins_of_date L tz rows ld"
          by (simp add: bins_of_date_def)
        with skip Cons show ?thesis by simp
      qed
    next
      case False
      with dt have step: "byDateFromTables L tz m (r # rows)
          = byDateFromTables L tz (Map_set m d (existing_or_empty m d @ [btext])) rows"
        by (simp add: r byDateFromTables_step del: byDateFromTables.simps)
      show ?thesis
      proof (cases "d = ld")
        case True
        with Some have b: "bins_of_date L tz (r # rows) ld = btext # bins_of_date L tz rows ld"
          by (simp add: bins_of_date_def r)
        from True False show ?thesis
          by (simp add: step Cons b Map_get_Map_set existing_or_empty_Map_set)
      next
        case False
        with Some have "bins_of_date L tz (r # rows) ld = bins_of_date L tz rows ld"
          by (simp add: bins_of_date_def)
        with False show ?thesis
          by (simp add: step Cons Map_get_Map_set existing_or_empty_Map_set)
      qed
    qed
  qed
qed

lemma filter_entries_of:
  "distinct (map fst m) \<Longrightarrow>
   filter (\<lambda>c. localDate c = ld) (entries_of m) =
     (case Map_get m ld of None \<Rightarrow> [] | Some bs \<Rightarrow> [\<lparr>localDate = ld, bins = bs\<rparr>])"
proof (induction m)
  case Nil
  then show ?case by (simp add: entries_of_def Map_get_def)
next
  case (Cons p m)
  obtain k v where p: "p = (k, v)" by (cases p)
  from Cons.prems have nk: "k \<notin> fst ` set m" and dm: "distinct (map fst m)"
    by (auto simp: p)
  from nk have none: "Map_get m k = None"
    by (simp add: Map_get_def map_of_eq_None_iff)
  have tail: "filter (\<lambda>c. localDate c = ld) (entries_of m) =
     (case Map_get m ld of None \<Rightarrow> [] | Some bs \<Rightarrow> [\<lparr>localDate = ld, bins = bs\<rparr>])"
    using Cons.IH dm by simp
  show ?case
  proof (cases "k = ld")
    case True
    with none tail show ?thesis
      by (simp add: p entries_of_def Map_get_def)
  next
    case False
    with tail show ?thesis
      by (simp add: p entries_of_def Map_get_def)
  qed
qed

lemma Map_get_Nil: "Map_get [] k = None"
  by (simp add: Map_get_def)

lemma existing_or_empty_Nil: "existing_or_empty [] k = []"
  by (simp add: existing_or_empty_def Map_get_def)

lemma Map_get_Some_nonempty: "Map_get m k = Some v \<Longrightarrow> m \<noteq> []"
  by (auto simp: Map_get_def)

lemma Array_from_Set_absorb:
  "Array_from_Set (Array_from_Set xs @ ys) = Array_from_Set (xs @ ys)"
proof -
  have "Set_add_all [] (Array_from_Set xs) = Array_from_Set xs"
    using first_seen_distinct_id [OF distinct_first_seen, of xs]
    by (simp add: Array_from_Set_first_seen Set_add_all_first_seen)
  then show ?thesis
    by (simp add: Array_from_Set_def Set_add_all_append)
qed

lemma distinct_byDate: "distinct (map fst m) \<Longrightarrow> distinct (map fst (byDate m rs))"
proof (induction rs arbitrary: m)
  case Nil
  then show ?case by simp
next
  case (Cons r rs)
  obtain k bs where r: "r = (k, bs)" by (cases r)
  from Cons show ?case
    by (simp add: r Let_def distinct_Map_set)
qed

lemma Map_get_byDate:
  "Map_get (byDate m rs) ld =
     (if filter (\<lambda>r. fst r = ld) rs = [] then Map_get m ld
      else Some (Array_from_Set
                   (existing_or_empty m ld @ concat (map snd (filter (\<lambda>r. fst r = ld) rs)))))"
proof (induction rs arbitrary: m)
  case Nil
  then show ?case by simp
next
  case (Cons r rs)
  obtain k bs where r: "r = (k, bs)" by (cases r)
  let ?m' = "Map_set m k (Array_from_Set (existing_or_empty m k @ bs))"
  have step: "byDate m (r # rs) = byDate ?m' rs"
    by (simp add: r existing_or_empty_def Let_def)
  show ?case
  proof (cases "k = ld")
    case True
    then show ?thesis
      unfolding step
      by (simp add: Cons r Map_get_Map_set existing_or_empty_Map_set Array_from_Set_absorb)
  next
    case False
    then show ?thesis
      unfolding step
      by (simp add: Cons r Map_get_Map_set existing_or_empty_Map_set)
  qed
qed

lemma scan_line_line_date:
  "scan_line L tz lines i =
     (case line_date L tz lines i of None \<Rightarrow> [] | Some d \<Rightarrow> [(d, [ctx_window lines i])])"
  by (simp add: scan_line_def line_date_def re_test_def Let_def split: option.splits)

lemma scan_windows:
  "concat (map snd (filter (\<lambda>r. fst r = ld) (concat (map (scan_line L tz lines) js)))) =
     map (ctx_window lines) (filter (\<lambda>i. line_date L tz lines i = Some ld) js)"
  by (induction js) (auto simp: scan_line_line_date split: option.splits)

lemma scan_none:
  "(filter (\<lambda>r. fst r = ld) (concat (map (scan_line L tz lines) js)) = []) =
     (filter (\<lambda>i. line_date L tz lines i = Some ld) js = [])"
  by (induction js) (auto simp: scan_line_line_date split: option.splits)

lemma text_lines_truthy: "l \<in> set (text_lines raw) \<Longrightarrow> truthy l"
  by (simp add: text_lines_def)

lemma ctx_window_inner:
  assumes "0 < i" "Suc i < length lines" "\<And>l. l \<in> set lines \<Longrightarrow> truthy l"
  shows "ctx_window lines i = lines ! (i - 1) @ '' '' @ lines ! i @ '' '' @ lines ! Suc i"
proof -
  from assms(1,2) have a: "at_index lines (int i - 1) = Some (lines ! (i - 1))"
    by (simp add: at_index_def nat_diff_distrib')
  from assms(2) have b: "at_index lines (int i) = Some (lines ! i)"
    by (simp add: at_index_def)
  from assms(2) have c: "at_index lines (int i + 1) = Some (lines ! Suc i)"
    by (simp add: at_index_def nat_add_distrib)
  from assms(1,2) have "lines ! (i - 1) \<in> set lines" "lines ! i \<in> set lines"
    "lines ! Suc i \<in> set lines"
    by (simp_all del: One_nat_def)
  with assms(3) have t: "truthy (lines ! (i - 1))" "truthy (lines ! i)" "truthy (lines ! Suc i)"
    by blast+
  show ?thesis
    using a b c t by (simp add: ctx_window_def del: One_nat_def)
qed

section \<open>The date parser\<close>

text \<open>
  Claim C5. \<^verbatim>\<open>parseDateToLocal\<close> tries, in this order, the formats \<^verbatim>\<open>d/M/yyyy\<close>,
  \<^verbatim>\<open>d/M/yy\<close>, \<^verbatim>\<open>d LLL yyyy\<close>, ISO, and last a \<^verbatim>\<open>D/M/YYYY\<close> substring of the
  input, each in the zone \<^verbatim>\<open>process.env.TZ || 'Europe/London'\<close>; the result is the
  first valid candidate taken at the start of its day; it is \<^verbatim>\<open>null\<close> exactly when no
  candidate is valid. The function is total: for every input string it returns a date
  or \<^verbatim>\<open>null\<close>, and has no branch that throws.
\<close>

theorem parseDateToLocal_priority_order:
  "parseDateToLocal L tz str = parse_spec L tz str
   \<and> (parseDateToLocal L tz str = None)
       = list_all (\<lambda>dt. \<not> isValid dt)
           (parse_candidates L (or_default tz ''Europe/London'') (trim str))
   \<and> (\<forall>d. parseDateToLocal L tz str = Some d \<longrightarrow>
         (\<exists>c \<in> set (parse_candidates L (or_default tz ''Europe/London'') (trim str)).
            isValid c \<and> d = startOf_day L c))"
proof -
  let ?cs = "parse_candidates L (or_default tz ''Europe/London'') (trim str)"
  have eq: "parseDateToLocal L tz str = parse_spec L tz str"
    by (auto simp: parseDateToLocal_def parse_spec_def parse_candidates_def Let_def
        split: option.splits)
  have none: "(parse_spec L tz str = None) = list_all (\<lambda>dt. \<not> isValid dt) ?cs"
    by (auto simp: parse_spec_def find_None_iff list_all_iff)
  have some: "\<forall>d. parse_spec L tz str = Some d \<longrightarrow> (\<exists>c \<in> set ?cs. isValid c \<and> d = startOf_day L c)"
    by (auto simp: parse_spec_def find_Some_iff)
  from eq none some show ?thesis by simp
qed

theorem parseDateToLocal_priority_order_witness:
  "parseDateToLocal sample_luxon None ''Thursday 11/09/2025  ''
     = Some (sample_date ''2025-09-11'' 1757545200000 11)
   \<and> parse_candidates sample_luxon ''Europe/London'' ''Thursday 11/09/2025''
     = [invalid_date, invalid_date, invalid_date, invalid_date,
        sample_date ''2025-09-11'' 1757545200000 11]
   \<and> parseDateToLocal sample_luxon None ''next week'' = None"
proof -
  have a: "parse_spec sample_luxon None ''Thursday 11/09/2025  ''
           = Some (sample_date ''2025-09-11'' 1757545200000 11)"
    by code_simp
  have b: "parse_candidates sample_luxon ''Europe/London'' ''Thursday 11/09/2025''
     = [invalid_date, invalid_date, invalid_date, invalid_date,
        sample_date ''2025-09-11'' 1757545200000 11]"
    by code_simp
  have c: "parse_spec sample_luxon None ''next week'' = None"
    by code_simp
  from parseDateToLocal_priority_order [of sample_luxon None "''Thursday 11/09/2025  ''"]
    parseDateToLocal_priority_order [of sample_luxon None "''next week''"] a b c
  show ?thesis by simp
qed

section \<open>The schedule extractor\<close>

text \<open>
  Claim C6. In the table path, when two rows resolve to the same calendar date, the
  output has exactly one entry for that date; its bin list is the bin texts of all the
  rows of that date, duplicates removed, in the order of first appearance, and so holds
  the bin text of both rows.
\<close>

theorem table_rows_merge_by_date:
  assumes "r1 \<in> set (tableData_rows fr)" and "r2 \<in> set (tableData_rows fr)"
    and "row_date L tz r1 = Some ld" and "row_date L tz r2 = Some ld"
  shows "\<exists>c. filter (\<lambda>c. localDate c = ld) (collections (extractCollections L tz fr)) = [c]
           \<and> bins c = first_seen (bins_of_date L tz (tableData_rows fr) ld)
           \<and> snd r1 \<in> set (bins c) \<and> snd r2 \<in> set (bins c) \<and> distinct (bins c)"
proof -
  let ?rows = "tableData_rows fr"
  let ?m = "byDateFromTables L tz [] ?rows"
  from assms have in1: "snd r1 \<in> set (bins_of_date L tz ?rows ld)"
    and in2: "snd r2 \<in> set (bins_of_date L tz ?rows ld)"
    by (auto simp: bins_of_date_def)
  then have ne: "bins_of_date L tz ?rows ld \<noteq> []" by auto
  have get: "Map_get ?m ld = Some (first_seen (bins_of_date L tz ?rows ld))"
    using ne by (simp add: Map_get_byDateFromTables Set_add_all_first_seen existing_or_empty_Nil)
  then have "?m \<noteq> []" by (rule Map_get_Some_nonempty)
  then have out: "collections (extractCollections L tz fr) = entries_of ?m"
    by (simp add: extractCollections_def Let_def)
  have "distinct (map fst ?m)" by (rule distinct_byDateFromTables) simp
  then have "filter (\<lambda>c. localDate c = ld) (entries_of ?m)
      = [\<lparr>localDate = ld, bins = first_seen (bins_of_date L tz ?rows ld)\<rparr>]"
    by (simp add: filter_entries_of get)
  with out in1 in2 show ?thesis
    by (simp add: set_first_seen distinct_first_seen)
qed

theorem table_rows_merge_by_date_witness:
  "\<exists>c. filter (\<lambda>c. localDate c = ''2025-09-11'')
           (collections (extractCollections sample_luxon None sample_frame)) = [c]
     \<and> bins c = [''General Waste'', ''Food Waste'']"
proof -
  have r1: "(''11/09/2025'', ''General Waste'') \<in> set (tableData_rows sample_frame)"
    by code_simp
  have r2: "(''11/09/2025'', ''Food Waste'') \<in> set (tableData_rows sample_frame)"
    by code_simp
  have d1: "row_date sample_luxon None (''11/09/2025'', ''General Waste'') = Some ''2025-09-11''"
    by code_simp
  have d2: "row_date sample_luxon None (''11/09/2025'', ''Food Waste'') = Some ''2025-09-11''"
    by code_simp
  have b: "first_seen (bins_of_date sample_luxon None (tableData_rows sample_frame) ''2025-09-11'')
           = [''General Waste'', ''Food Waste'']"
    by code_simp
  from table_rows_merge_by_date [OF r1 r2 d1 d2] show ?thesis
    unfolding b by blast
qed

text \<open>
  Claim C8. The text scan runs only when the table path gave no entry (otherwise the
  output is the table path's). When it runs, a line that matches the loose date pattern
  and whose matched text parses gives the output exactly one entry for its calendar
  date; the bin list of that entry is the context windows of the lines of that date,
  duplicates removed, in line order, and holds the window of the line. The window of a
  line that has a line before and after it is the three lines joined by spaces. Both
  paths build their entries with \<open>entries_of\<close>, in the one type \<open>scrape_result\<close>. The
  lines are those of \<^verbatim>\<open>split(/\n+/)\<close>, trimmed of white space (the no-break space too)
  and without the empty ones; the pattern's \<^verbatim>\<open>\s+\<close> takes the same white space.
\<close>

theorem text_scan_fallback:
  assumes "byDateFromTables L tz [] (tableData_rows fr) = []"
    and "lines = text_lines (body_innerText fr)"
    and "i < length lines"
    and "line_date L tz lines i = Some ld"
  shows "(\<exists>c. filter (\<lambda>c. localDate c = ld) (collections (extractCollections L tz fr)) = [c]
            \<and> bins c = first_seen (windows_of_date L tz lines ld)
            \<and> ctx_window lines i \<in> set (bins c))
         \<and> (0 < i \<and> Suc i < length lines \<longrightarrow>
              ctx_window lines i = lines ! (i - 1) @ '' '' @ lines ! i @ '' '' @ lines ! Suc i)
         \<and> (\<forall>fr'. byDateFromTables L tz [] (tableData_rows fr') \<noteq> [] \<longrightarrow>
              collections (extractCollections L tz fr')
                = entries_of (byDateFromTables L tz [] (tableData_rows fr')))"
proof -
  let ?rs = "scan_results L tz lines"
  let ?m = "byDate [] ?rs"
  have out: "collections (extractCollections L tz fr) = entries_of ?m"
    using assms(1,2) by (simp add: extractCollections_def Let_def)
  from assms(3,4) have i_in: "i \<in> set (filter (\<lambda>j. line_date L tz lines j = Some ld) [0..<length lines])"
    by simp
  then have w_in: "ctx_window lines i \<in> set (windows_of_date L tz lines ld)"
    unfolding windows_of_date_def by (simp only: set_map) (rule imageI)
  from assms(3,4) have "filter (\<lambda>j. line_date L tz lines j = Some ld) [0..<length lines] \<noteq> []"
    by (auto simp: filter_empty_conv)
  then have sel: "filter (\<lambda>r. fst r = ld) ?rs \<noteq> []"
    unfolding scan_results_def scan_none .
  have win: "concat (map snd (filter (\<lambda>r. fst r = ld) ?rs)) = windows_of_date L tz lines ld"
    unfolding scan_results_def windows_of_date_def by (rule scan_windows)
  have get: "Map_get ?m ld = Some (first_seen (windows_of_date L tz lines ld))"
    using sel by (simp add: Map_get_byDate win existing_or_empty_Nil Array_from_Set_first_seen)
  have "distinct (map fst ?m)" by (rule distinct_byDate) simp
  then have "filter (\<lambda>c. localDate c = ld) (entries_of ?m)
      = [\<lparr>localDate = ld, bins = first_seen (windows_of_date L tz lines ld)\<rparr>]"
    by (simp add: filter_entries_of get)
  with out w_in have first: "\<exists>c. filter (\<lambda>c. localDate c = ld) (collections (extractCollections L tz fr)) = [c]
            \<and> bins c = first_seen (windows_of_date L tz lines ld)
            \<and> ctx_window lines i \<in> set (bins c)"
    by (simp add: set_first_seen)
  have second: "0 < i \<and> Suc i < length lines \<longrightarrow>
      ctx_window lines i = lines ! (i - 1) @ '' '' @ lines ! i @ '' '' @ lines ! Suc i"
    using ctx_window_inner [of i lines] text_lines_truthy [of _ "body_innerText fr"]
    unfolding assms(2) by blast
  have third: "\<forall>fr'. byDateFromTables L tz [] (tableData_rows fr') \<noteq> [] \<longrightarrow>
      collections (extractCollections L tz fr')
        = entries_of (byDateFromTables L tz [] (tableData_rows fr'))"
    by (simp add: extractCollections_def Let_def)
  from first second third show ?thesis by blast
qed

theorem text_scan_fallback_witness:
  "(\<exists>c. filter (\<lambda>c. localDate c = ''2025-09-11'')
           (collections (extractCollections sample_luxon None sample_text_frame)) = [c]
      \<and> bins c = [''Your next collections Thursday 11/09/2025 General Waste''])
   \<and> text_lines (body_innerText sample_text_frame) ! 1 = ''Thursday 11/09/2025''
   \<and> text_lines (body_innerText sample_nbsp_frame) = [''11/09/2025'', ''x'']
   \<and> (\<exists>c. filter (\<lambda>c. localDate c = ''2025-09-11'')
           (collections (extractCollections sample_luxon None sample_nbsp_frame)) = [c]
         \<and> bins c = [''11/09/2025 x''])
   \<and> re_exec dateRegex sample_nbsp_line
       = Some (''5'' @ [CHR 0xA0] @ ''Sep'' @ [CHR 0xA0] @ ''2025'')"
proof -
  let ?lines = "text_lines (body_innerText sample_text_frame)"
  let ?nlines = "text_lines (body_innerText sample_nbsp_frame)"
  have h1: "byDateFromTables sample_luxon None [] (tableData_rows sample_text_frame) = []"
    by code_simp
  have h3: "1 < length ?lines" by code_simp
  have h4: "line_date sample_luxon None ?lines 1 = Some ''2025-09-11''" by code_simp
  have w: "first_seen (windows_of_date sample_luxon None ?lines ''2025-09-11'')
           = [''Your next collections Thursday 11/09/2025 General Waste'']"
    by code_simp
  have l: "?lines ! 1 = ''Thursday 11/09/2025''" by code_simp
  from text_scan_fallback [OF h1 refl h3 h4]
  have first: "\<exists>c. filter (\<lambda>c. localDate c = ''2025-09-11'')
           (collections (extractCollections sample_luxon None sample_text_frame)) = [c]
      \<and> bins c = [''Your next collections Thursday 11/09/2025 General Waste'']"
    unfolding w by blast
  have n1: "byDateFromTables sample_luxon None [] (tableData_rows sample_nbsp_frame) = []"
    by code_simp
  have n3: "0 < length ?nlines" by code_simp
  have n4: "line_date sample_luxon None ?nlines 0 = Some ''2025-09-11''" by code_simp
  have nw: "first_seen (windows_of_date sample_luxon None ?nlines ''2025-09-11'')
           = [''11/09/2025 x'']"
    by code_simp
  have nl: "?nlines = [''11/09/2025'', ''x'']" by code_simp
  from text_scan_fallback [OF n1 refl n3 n4]
  have second: "\<exists>c. filter (\<lambda>c. localDate c = ''2025-09-11'')
           (collections (extractCollections sample_luxon None sample_nbsp_frame)) = [c]
         \<and> bins c = [''11/09/2025 x'']"
    unfolding nw by blast
  have r: "re_exec dateRegex sample_nbsp_line
       = Some (''5'' @ [CHR 0xA0] @ ''Sep'' @ [CHR 0xA0] @ ''2025'')"
    by code_simp
  from first l nl second r show ?thesis by blast
qed

section \<open>The notification gate\<close>

lemma send_all_recipients: "map email_to (send_all e subject msg xs) = map Some xs"
  by (induction xs) (auto split: sum.splits)

lemma sends_if_empty:
  "(if length xs = 0 then [] else send_all e subject msg xs) = send_all e subject msg xs"
  by (cases xs) simp_all

lemma announceDate_not_forced: "announceDate L False now tomorrow cs = tomorrow"
  by (simp add: announceDate_def)

lemma process_address_notify:
  assumes "scrapeNextCollections e (label a) = Inr result"
    and "hasTomorrow (collections result) tomorrow"
    and "wasNotifiedForDate e st (sha256 e (label a)) tomorrow \<noteq> Inr True"
  shows "process_address e cfg False now tomorrow st a =
     (case markNotified e st (sha256 e (label a)) tomorrow result of
        Inl err \<Rightarrow>
          (st, send_all e (subject_text (lux e) (label a) tomorrow (collections result))
                 (msg_text e cfg (label a) tomorrow tomorrow (collections result))
                 (filter emailLike (recipients a))
               @ [StateWriteFailed (sha256 e (label a)) tomorrow])
      | Inr st' \<Rightarrow>
          (st', send_all e (subject_text (lux e) (label a) tomorrow (collections result))
                  (msg_text e cfg (label a) tomorrow tomorrow (collections result))
                  (filter emailLike (recipients a))
                @ [StateWritten (sha256 e (label a)) tomorrow]))"
proof -
  from assms(3) have "(case wasNotifiedForDate e st (sha256 e (label a)) tomorrow of
      Inl err \<Rightarrow> False | Inr b \<Rightarrow> b) = False"
    by (cases "wasNotifiedForDate e st (sha256 e (label a)) tomorrow") auto
  with assms(1,2) show ?thesis
    by (simp add: process_address_def Let_def announceDate_not_forced sends_if_empty
        split: sum.splits)
qed

lemma process_address_forced:
  assumes "scrapeNextCollections e (label a) = Inr result"
  shows "process_address e cfg True now tomorrow st a =
     (st, send_all e
            (subject_text (lux e) (label a)
               (announceDate (lux e) True now tomorrow (collections result)) (collections result))
            (msg_text e cfg (label a) tomorrow
               (announceDate (lux e) True now tomorrow (collections result)) (collections result))
            (filter emailLike (recipients a)))"
  using assms by (simp add: process_address_def Let_def sends_if_empty)

lemma send_all_member:
  "ev \<in> set (send_all e subject msg xs) \<Longrightarrow> \<exists>t \<in> set xs. email_to ev = Some t"
  by (induction xs) (auto split: sum.splits if_splits)

lemma process_address_email_to:
  assumes "ev \<in> set (snd (process_address e cfg f now tomorrow st a))"
    and "email_to ev = Some t"
  shows "t \<in> set (filter emailLike (recipients a))"
proof -
  let ?to = "filter emailLike (recipients a)"
  have "\<exists>subject msg. ev \<in> set (send_all e subject msg ?to)"
    using assms
    by (auto simp: process_address_def Let_def sends_if_empty split: sum.splits if_splits)
  then obtain subject msg where "ev \<in> set (send_all e subject msg ?to)" by blast
  from send_all_member [OF this] assms(2) show ?thesis by auto
qed

lemma markNotified_ok:
  "updateItem_error e h = None \<Longrightarrow>
   \<exists>st'. markNotified e st h d snap = Inr st'
        \<and> map_option lastNotifiedForLocalDate (st' h) = Some (Some d)"
  by (simp add: markNotified_def)
lemma sort_key_head:
  assumes "xs \<noteq> []"
  shows "\<exists>u us. sort_key f xs = u # us \<and> u \<in> set xs \<and> (\<forall>v \<in> set xs. f u \<le> f v)"
proof (cases "sort_key f xs")
  case Nil
  then have "length (sort_key f xs) = 0" by simp
  with assms show ?thesis by simp
next
  case (Cons u us)
  have "sorted (map f (sort_key f xs))" by (rule sorted_sort_key)
  with Cons have le: "\<forall>v \<in> set us. f u \<le> f v" by simp
  have "set (sort_key f xs) = set xs" by (rule set_sort)
  with Cons have s: "set xs = insert u (set us)" by simp
  with le Cons show ?thesis by auto
qed

lemma upcoming_candidates:
  "set (map fst (filter (\<lambda>c. isValid (snd c) \<and> valueOf (startOf_day L now) \<le> valueOf (snd c))
      (map (\<lambda>c. (c, fromISO L (localDate c) None)) cs)))
   = set (filter (on_or_after_today L now) cs)"
  by (auto simp: on_or_after_today_def image_iff)

text \<open>
  Claim C1, as amended. In a run that is not forced, for an address whose schedule has
  the target date and that is not recorded as notified, when the store takes the write:
  the events of the address are one send for each email-like recipient, in order, and
  then the write of \<open>lastNotifiedForLocalDate = tomorrow\<close>. The write is the last event,
  never before a send, and it is made whatever the sends did: nothing is assumed of
  \<open>gmail_send\<close>.
\<close>

theorem state_write_follows_send_attempts:
  assumes "scrapeNextCollections e (label a) = Inr result"
    and "hasTomorrow (collections result) tomorrow"
    and "wasNotifiedForDate e st (sha256 e (label a)) tomorrow \<noteq> Inr True"
    and "updateItem_error e (sha256 e (label a)) = None"
  shows "\<exists>sends st'.
           process_address e cfg False now tomorrow st a
             = (st', sends @ [StateWritten (sha256 e (label a)) tomorrow])
           \<and> map email_to sends = map Some (filter emailLike (recipients a))
           \<and> map_option lastNotifiedForLocalDate (st' (sha256 e (label a))) = Some (Some tomorrow)"
proof -
  from markNotified_ok [OF assms(4)] obtain st' where
    m: "markNotified e st (sha256 e (label a)) tomorrow result = Inr st'"
    and l: "map_option lastNotifiedForLocalDate (st' (sha256 e (label a))) = Some (Some tomorrow)"
    by blast
  from process_address_notify [OF assms(1-3)] m l show ?thesis
    by (simp add: send_all_recipients)
qed

theorem state_write_follows_send_attempts_witness:
  "\<exists>sends st'.
     process_address sample_env_gmail_down sample_config False sample_now ''2025-09-11''
         Map.empty sample_address
       = (st', sends @ [StateWritten ''#10 Example Road'' ''2025-09-11''])
     \<and> map email_to sends = [Some ''a@b.co'']
     \<and> map_option lastNotifiedForLocalDate (st' ''#10 Example Road'') = Some (Some ''2025-09-11'')"
proof -
  have h1: "scrapeNextCollections sample_env_gmail_down (label sample_address)
            = Inr (extractCollections sample_luxon (Some ''Europe/London'') sample_frame)"
    by code_simp
  have h2: "hasTomorrow (collections (extractCollections sample_luxon (Some ''Europe/London'')
              sample_frame)) ''2025-09-11''"
    by code_simp
  have h3: "wasNotifiedForDate sample_env_gmail_down Map.empty
              (sha256 sample_env_gmail_down (label sample_address)) ''2025-09-11'' \<noteq> Inr True"
    by code_simp
  have h4: "updateItem_error sample_env_gmail_down
              (sha256 sample_env_gmail_down (label sample_address)) = None"
    by code_simp
  have k: "sha256 sample_env_gmail_down (label sample_address) = ''#10 Example Road''"
    by code_simp
  have r: "filter emailLike (recipients sample_address) = [''a@b.co'']"
    by code_simp
  from state_write_follows_send_attempts [OF h1 h2 h3 h4, of sample_config sample_now]
  show ?thesis
    unfolding k r by simp
qed

text \<open>
  Claim C1 as stated fails: with Gmail refusing the message, the run records the send as
  failed and still writes the state for the 11th to a store that held nothing; a second
  run on that store, with Gmail working, sends nothing.
\<close>

theorem send_failure_still_marks_notified:
  "snd (snd (daily sample_env_gmail_down False Map.empty)) =
     [EmailFailed ''a@b.co''
        ''General Waste, Food Waste collection on 11th September 2025 - 10 Example Road''
        ''Collection tomorrow for 10 Example Road (11th September 2025): General Waste, Food Waste\<newline>\<newline>Put bins out.'',
      StateWritten ''#10 Example Road'' ''2025-09-11'']
   \<and> map_option lastNotifiedForLocalDate
        (fst (snd (daily sample_env_gmail_down False Map.empty)) ''#10 Example Road'')
       = Some (Some ''2025-09-11'')
   \<and> map_option lastNotifiedForLocalDate ((Map.empty :: store) ''#10 Example Road'') = None
   \<and> snd (snd (daily sample_env False (fst (snd (daily sample_env_gmail_down False Map.empty)))))
       = []"
  by code_simp

text \<open>
  Claim C2. In a run that is not forced, when the read of the state store returns the
  item of the address and its \<open>lastNotifiedForLocalDate\<close> is the target date, the address
  is skipped: no event and the store as it was, whatever the schedule holds.
\<close>

theorem already_notified_no_action:
  assumes "getItem_error e (sha256 e (label a)) = None"
    and "st (sha256 e (label a)) = Some it"
    and "lastNotifiedForLocalDate it = Some tomorrow"
  shows "process_address e cfg False now tomorrow st a = (st, [])"
proof -
  from assms have "wasNotifiedForDate e st (sha256 e (label a)) tomorrow = Inr True"
    by (simp add: wasNotifiedForDate_def)
  then show ?thesis
    by (simp add: process_address_def Let_def split: sum.splits)
qed

theorem already_notified_no_action_witness:
  "process_address sample_env sample_config False sample_now ''2025-09-11''
       (sample_store ''2025-09-11'') sample_address
     = (sample_store ''2025-09-11'', [])
   \<and> hasTomorrow (collections (extractCollections sample_luxon (Some ''Europe/London'')
         sample_frame)) ''2025-09-11''
   \<and> scrapeNextCollections sample_env (label sample_address)
       = Inr (extractCollections sample_luxon (Some ''Europe/London'') sample_frame)"
proof -
  have h1: "getItem_error sample_env (sha256 sample_env (label sample_address)) = None"
    by code_simp
  have h2: "sample_store ''2025-09-11'' (sha256 sample_env (label sample_address))
            = Some (notified ''2025-09-11'')"
    by code_simp
  have h3: "lastNotifiedForLocalDate (notified ''2025-09-11'') = Some ''2025-09-11''"
    by code_simp
  have s: "hasTomorrow (collections (extractCollections sample_luxon (Some ''Europe/London'')
              sample_frame)) ''2025-09-11''"
    by code_simp
  have n: "scrapeNextCollections sample_env (label sample_address)
       = Inr (extractCollections sample_luxon (Some ''Europe/London'') sample_frame)"
    by code_simp
  from already_notified_no_action
         [where e = sample_env and a = sample_address and st = "sample_store ''2025-09-11''"
            and cfg = sample_config and now = sample_now, OF h1 h2 h3] s n
  show ?thesis by simp
qed

text \<open>
  Claim C3, as amended. In a forced run, for a schedule with no entry on the target
  date: when some entry has a valid date on or after the start of today, the announce
  date is the date of such an entry with the least date; when none has, the announce
  date stays the target date and the address is still processed: a send is made for
  each email-like recipient, and the state is not written.
\<close>

theorem forced_announce_date:
  assumes "\<not> hasTomorrow cs tomorrow"
  shows "(list_ex (on_or_after_today L now) cs \<longrightarrow>
           (\<exists>c \<in> set cs. on_or_after_today L now c
              \<and> announceDate L True now tomorrow cs = localDate c
              \<and> (\<forall>c' \<in> set cs. on_or_after_today L now c' \<longrightarrow>
                    valueOf (fromISO L (localDate c) None)
                      \<le> valueOf (fromISO L (localDate c') None))))
         \<and> (\<not> list_ex (on_or_after_today L now) cs \<longrightarrow>
              announceDate L True now tomorrow cs = tomorrow
              \<and> (\<forall>e cfg st a result.
                    lux e = L \<and> scrapeNextCollections e (label a) = Inr result
                      \<and> collections result = cs \<longrightarrow>
                    process_address e cfg True now tomorrow st a
                      = (st, send_all e (subject_text L (label a) tomorrow cs)
                               (msg_text e cfg (label a) tomorrow tomorrow cs)
                               (filter emailLike (recipients a)))))"
proof -
  let ?P = "\<lambda>c::CollectionEntry \<times> DateTime.
              isValid (snd c) \<and> valueOf (startOf_day L now) \<le> valueOf (snd c)"
  let ?xs = "filter ?P (map (\<lambda>c. (c, fromISO L (localDate c) None)) cs)"
  have up: "upcoming L now cs = sort_key (\<lambda>c. valueOf (snd c)) ?xs"
    by (simp add: upcoming_def)
  have mem: "\<And>u. u \<in> set ?xs \<Longrightarrow>
      fst u \<in> set cs \<and> on_or_after_today L now (fst u) \<and> snd u = fromISO L (localDate (fst u)) None"
    by (auto simp: on_or_after_today_def)
  have first: "list_ex (on_or_after_today L now) cs \<longrightarrow>
           (\<exists>c \<in> set cs. on_or_after_today L now c
              \<and> announceDate L True now tomorrow cs = localDate c
              \<and> (\<forall>c' \<in> set cs. on_or_after_today L now c' \<longrightarrow>
                    valueOf (fromISO L (localDate c) None)
                      \<le> valueOf (fromISO L (localDate c') None)))"
  proof
    assume "list_ex (on_or_after_today L now) cs"
    then obtain c0 where c0: "c0 \<in> set cs" "on_or_after_today L now c0"
      by (auto simp: list_ex_iff)
    then have "?xs \<noteq> []"
      by (auto simp: on_or_after_today_def filter_empty_conv)
    from sort_key_head [OF this, of "\<lambda>c. valueOf (snd c)"] obtain u us where
      u: "upcoming L now cs = u # us" "u \<in> set ?xs"
        "\<forall>v \<in> set ?xs. valueOf (snd u) \<le> valueOf (snd v)"
      unfolding up by blast
    from mem [OF u(2)] have fu: "fst u \<in> set cs" "on_or_after_today L now (fst u)"
      "snd u = fromISO L (localDate (fst u)) None"
      by simp_all
    have ad: "announceDate L True now tomorrow cs = localDate (fst u)"
      using assms u(1) by (simp add: announceDate_def)
    have least: "\<forall>c' \<in> set cs. on_or_after_today L now c' \<longrightarrow>
                    valueOf (fromISO L (localDate (fst u)) None)
                      \<le> valueOf (fromISO L (localDate c') None)"
    proof (intro ballI impI)
      fix c' assume "c' \<in> set cs" "on_or_after_today L now c'"
      then have "(c', fromISO L (localDate c') None) \<in> set ?xs"
        by (auto simp: on_or_after_today_def)
      with u(3) have "valueOf (snd u) \<le> valueOf (fromISO L (localDate c') None)"
        by fastforce
      with fu(3) show "valueOf (fromISO L (localDate (fst u)) None)
                      \<le> valueOf (fromISO L (localDate c') None)"
        by simp
    qed
    from fu(1,2) ad least show "\<exists>c \<in> set cs. on_or_after_today L now c
              \<and> announceDate L True now tomorrow cs = localDate c
              \<and> (\<forall>c' \<in> set cs. on_or_after_today L now c' \<longrightarrow>
                    valueOf (fromISO L (localDate c) None)
                      \<le> valueOf (fromISO L (localDate c') None))"
      by blast
  qed
  have second: "\<not> list_ex (on_or_after_today L now) cs \<longrightarrow>
              announceDate L True now tomorrow cs = tomorrow
              \<and> (\<forall>e cfg st a result.
                    lux e = L \<and> scrapeNextCollections e (label a) = Inr result
                      \<and> collections result = cs \<longrightarrow>
                    process_address e cfg True now tomorrow st a
                      = (st, send_all e (subject_text L (label a) tomorrow cs)
                               (msg_text e cfg (label a) tomorrow tomorrow cs)
                               (filter emailLike (recipients a))))"
  proof
    assume none: "\<not> list_ex (on_or_after_today L now) cs"
    then have "?xs = []"
      by (auto simp: list_ex_iff on_or_after_today_def filter_empty_conv)
    then have "upcoming L now cs = []"
      unfolding up by simp
    then have ad: "announceDate L True now tomorrow cs = tomorrow"
      by (simp add: announceDate_def)
    then show "announceDate L True now tomorrow cs = tomorrow
              \<and> (\<forall>e cfg st a result.
                    lux e = L \<and> scrapeNextCollections e (label a) = Inr result
                      \<and> collections result = cs \<longrightarrow>
                    process_address e cfg True now tomorrow st a
                      = (st, send_all e (subject_text L (label a) tomorrow cs)
                               (msg_text e cfg (label a) tomorrow tomorrow cs)
                               (filter emailLike (recipients a))))"
      by (auto simp: process_address_forced)
  qed
  from first second show ?thesis by blast
qed

theorem forced_announce_date_witness:
  "list_ex (on_or_after_today sample_luxon sample_now) later_schedule
   \<and> (\<exists>c \<in> set later_schedule.
         announceDate sample_luxon True sample_now ''2025-09-11'' later_schedule = localDate c
         \<and> localDate c = ''2025-09-12'')
   \<and> \<not> list_ex (on_or_after_today sample_luxon sample_now) past_schedule
   \<and> announceDate sample_luxon True sample_now ''2025-09-11'' past_schedule = ''2025-09-11''"
proof -
  have h1: "\<not> hasTomorrow later_schedule ''2025-09-11''" by code_simp
  have h2: "\<not> hasTomorrow past_schedule ''2025-09-11''" by code_simp
  have e1: "list_ex (on_or_after_today sample_luxon sample_now) later_schedule" by code_simp
  have e2: "\<not> list_ex (on_or_after_today sample_luxon sample_now) past_schedule" by code_simp
  have v: "announceDate sample_luxon True sample_now ''2025-09-11'' later_schedule = ''2025-09-12''"
    by code_simp
  from forced_announce_date [OF h1, of sample_luxon sample_now] e1
  obtain c where c: "c \<in> set later_schedule"
    "announceDate sample_luxon True sample_now ''2025-09-11'' later_schedule = localDate c"
    by blast
  from c v have "\<exists>c \<in> set later_schedule.
         announceDate sample_luxon True sample_now ''2025-09-11'' later_schedule = localDate c
         \<and> localDate c = ''2025-09-12''"
    by auto
  moreover from forced_announce_date [OF h2, of sample_luxon sample_now] e2
  have "announceDate sample_luxon True sample_now ''2025-09-11'' past_schedule = ''2025-09-11''"
    by blast
  ultimately show ?thesis using e1 e2 by blast
qed

text \<open>
  Claim C3 as stated fails in its second half: a forced run on a page whose only
  collection lies a week back, so that no entry is on the target date or on or after
  today, sends an email for the target date, with an empty bin text.
\<close>

theorem forced_run_without_upcoming_entry_sends:
  "collections (extractCollections sample_luxon (Some ''Europe/London'') past_frame) = past_schedule
   \<and> \<not> hasTomorrow past_schedule ''2025-09-11''
   \<and> \<not> list_ex (on_or_after_today sample_luxon sample_now) past_schedule
   \<and> snd (snd (daily sample_env_past True Map.empty)) =
       [EmailSent ''a@b.co''
          '' collection on 11th September 2025 - 10 Example Road''
          ''Collection tomorrow for 10 Example Road (11th September 2025): \<newline>\<newline>Put bins out.'']"
  by code_simp

text \<open>
  Claim C4, as amended. When no entry of the schedule has the announce date, the bins
  gathered for it are none: \<^verbatim>\<open>binsForAnnounce\<close> and \<^verbatim>\<open>uniqueBins\<close> are empty and
  \<^verbatim>\<open>binsText\<close> is the empty string.
\<close>

theorem no_matching_entry_no_bins:
  assumes "\<not> list_ex (\<lambda>c. localDate c = ad) cs"
  shows "binsForAnnounce cs ad = [] \<and> uniqueBins cs ad = [] \<and> binsText cs ad = []"
proof -
  from assms have "filter (\<lambda>c. localDate c = ad) cs = []"
    by (auto simp: list_ex_iff filter_empty_conv)
  then show ?thesis
    by (simp add: binsForAnnounce_def uniqueBins_def binsText_def announceDetails_def
        Array_from_Set_def truthy_def)
qed

theorem no_matching_entry_no_bins_witness:
  "\<not> list_ex (\<lambda>c. localDate c = ''2025-09-11'') past_schedule
   \<and> binsForAnnounce past_schedule ''2025-09-11'' = []
   \<and> uniqueBins past_schedule ''2025-09-11'' = []
   \<and> binsText past_schedule ''2025-09-11'' = []"
proof -
  have h: "\<not> list_ex (\<lambda>c. localDate c = ''2025-09-11'') past_schedule" by code_simp
  from no_matching_entry_no_bins [OF h] h show ?thesis by simp
qed

text \<open>
  Claim C4 as stated fails: for the forced run on the schedule whose only entry lies a
  week back, the announce date is the 11th, no entry has it, and the bin list is empty,
  where the deduplicated union over the schedule is the one bin of that entry.
\<close>

theorem no_union_fallback:
  "announceDate sample_luxon True sample_now ''2025-09-11'' past_schedule = ''2025-09-11''
   \<and> \<not> list_ex (\<lambda>c. localDate c = ''2025-09-11'') past_schedule
   \<and> uniqueBins past_schedule ''2025-09-11'' = []
   \<and> binsText past_schedule ''2025-09-11'' = []
   \<and> first_seen (concat (map bins past_schedule)) = [''General Waste'']"
  by code_simp

section \<open>Failures of the collaborators\<close>

lemma sendEmail_getItem_irrelevant:
  "sendEmail (e\<lparr>getItem_error := g\<rparr>) t subject msg = sendEmail e t subject msg"
  by (simp add: sendEmail_def Let_def cong: if_cong)

lemma send_all_getItem_irrelevant:
  "send_all (e\<lparr>getItem_error := g\<rparr>) subject msg xs = send_all e subject msg xs"
  by (induction xs) (simp_all add: sendEmail_getItem_irrelevant)

lemma scrape_getItem_irrelevant:
  "scrapeNextCollections (e\<lparr>getItem_error := g\<rparr>) l = scrapeNextCollections e l"
  by (simp add: scrapeNextCollections_def Let_def cong: sum.case_cong)

lemma msg_text_getItem_irrelevant:
  "msg_text (e\<lparr>getItem_error := g\<rparr>) cfg l t ad cs = msg_text e cfg l t ad cs"
  by (simp add: msg_text_def messageSuffix_def Let_def cong: option.case_cong)

lemma markNotified_events:
  "(case markNotified e st h d r of Inl err \<Rightarrow> (x :: event list) | Inr st' \<Rightarrow> y)
     = (if updateItem_error e h = None then y else x)"
  by (simp add: markNotified_def split: option.splits)

lemma process_address_notify_events:
  assumes "scrapeNextCollections e (label a) = Inr result"
    and "hasTomorrow (collections result) tomorrow"
    and "wasNotifiedForDate e st (sha256 e (label a)) tomorrow \<noteq> Inr True"
  shows "snd (process_address e cfg False now tomorrow st a) =
     send_all e (subject_text (lux e) (label a) tomorrow (collections result))
       (msg_text e cfg (label a) tomorrow tomorrow (collections result))
       (filter emailLike (recipients a))
     @ [if updateItem_error e (sha256 e (label a)) = None
        then StateWritten (sha256 e (label a)) tomorrow
        else StateWriteFailed (sha256 e (label a)) tomorrow]"
  unfolding process_address_notify [OF assms]
  by (simp add: markNotified_def split: option.splits)

lemma process_address_skipped:
  "scrapeNextCollections e (label a) = Inl err \<Longrightarrow>
     process_address e cfg f now tomorrow st a = (st, [])"
  "scrapeNextCollections e (label a) = Inr result \<Longrightarrow>
     \<not> hasTomorrow (collections result) tomorrow \<Longrightarrow>
     process_address e cfg False now tomorrow st a = (st, [])"
  by (simp_all add: process_address_def)

lemma process_address_read_failure:
  assumes "getItem_error e (sha256 e (label a)) \<noteq> None"
  shows "snd (process_address e cfg False now tomorrow st a)
       = snd (process_address (e\<lparr>getItem_error := (\<lambda>k. None)\<rparr>) cfg False now tomorrow
                (st(sha256 e (label a) := None)) a)"
proof (cases "scrapeNextCollections e (label a)")
  case (Inl err)
  then have "scrapeNextCollections (e\<lparr>getItem_error := (\<lambda>k. None)\<rparr>) (label a) = Inl err"
    by (simp add: scrape_getItem_irrelevant)
  with Inl show ?thesis
    by (simp add: process_address_skipped(1))
next
  case (Inr result)
  then have s': "scrapeNextCollections (e\<lparr>getItem_error := (\<lambda>k. None)\<rparr>) (label a) = Inr result"
    by (simp add: scrape_getItem_irrelevant)
  show ?thesis
  proof (cases "hasTomorrow (collections result) tomorrow")
    case False
    with Inr s' show ?thesis
      by (simp add: process_address_skipped(2))
  next
    case True
    from assms have w: "wasNotifiedForDate e st (sha256 e (label a)) tomorrow \<noteq> Inr True"
      by (auto simp: wasNotifiedForDate_def)
    have w': "wasNotifiedForDate (e\<lparr>getItem_error := (\<lambda>k. None)\<rparr>)
                (st(sha256 e (label a) := None))
                (sha256 (e\<lparr>getItem_error := (\<lambda>k. None)\<rparr>) (label a)) tomorrow \<noteq> Inr True"
      by (simp add: wasNotifiedForDate_def)
    show ?thesis
      unfolding process_address_notify_events [OF Inr True w]
        process_address_notify_events [OF s' True w']
      by (simp add: send_all_getItem_irrelevant msg_text_getItem_irrelevant)
  qed
qed

lemma process_address_store_kept:
  assumes "\<And>k. updateItem_error e k \<noteq> None"
  shows "fst (process_address e cfg f now tomorrow st a) = st"
proof -
  from assms [of "sha256 e (label a)"] obtain err where
    "updateItem_error e (sha256 e (label a)) = Some err" by blast
  then show ?thesis
    by (simp add: process_address_def markNotified_def Let_def split: sum.splits)
qed

lemma address_loop_store_kept:
  assumes "\<And>k. updateItem_error e k \<noteq> None"
  shows "fst (address_loop e cfg f now tomorrow st as) = st"
  using assms
  by (induction as arbitrary: st) (simp_all add: Let_def process_address_store_kept)

lemma daily_launched:
  assumes "loadConfig e = Inr cfg" and "launchBrowser e = None"
  shows "daily e f st =
     (case browser_close e of
        Some err \<Rightarrow> Inl err
      | None \<Rightarrow> Inr \<lparr>statusCode = 200, body = ''ok''\<rparr>,
      address_loop e cfg f (run_now e cfg) (run_tomorrow e cfg) st (addresses cfg))"
  using assms by (simp add: daily_def Let_def split: option.splits)

lemma daily_error:
  assumes "fst (daily e f st) = Inl err"
  shows "loadConfig e = Inl err \<or> launchBrowser e = Some err \<or> browser_close e = Some err"
  using assms by (auto simp: daily_def Let_def split: sum.splits option.splits)

lemma address_loop_scrape_failure:
  assumes "scrapeNextCollections e (label a) = Inl err"
  shows "address_loop e cfg f now tomorrow st (a # as) = address_loop e cfg f now tomorrow st as"
  using assms by (simp add: process_address_def Let_def)

text \<open>
  Claim C7. In a run that is not forced, when the read of the state store throws for
  the address, the events of the address are those of a run whose read works and finds
  no item: the read failure counts as not notified before. For an address whose schedule
  has the target date, a send is then made for each email-like recipient, followed by
  the write of the state. And when every write of the state store throws, a run whose
  configuration loads and whose browser opens and closes returns the success result,
  with the store as it was.
\<close>

theorem store_failures_tolerated:
  "(getItem_error e (sha256 e (label a)) \<noteq> None \<longrightarrow>
      snd (process_address e cfg False now tomorrow st a)
        = snd (process_address (e\<lparr>getItem_error := (\<lambda>k. None)\<rparr>) cfg False now tomorrow
                 (st(sha256 e (label a) := None)) a))
   \<and> (getItem_error e (sha256 e (label a)) \<noteq> None
        \<and> scrapeNextCollections e (label a) = Inr result
        \<and> hasTomorrow (collections result) tomorrow \<longrightarrow>
      (\<exists>sends mark. snd (process_address e cfg False now tomorrow st a) = sends @ [mark]
          \<and> map email_to sends = map Some (filter emailLike (recipients a))
          \<and> email_to mark = None))
   \<and> (loadConfig e = Inr cfg' \<and> launchBrowser e = None \<and> browser_close e = None
        \<and> (\<forall>k. updateItem_error e k \<noteq> None) \<longrightarrow>
      fst (daily e f st') = Inr \<lparr>statusCode = 200, body = ''ok''\<rparr>
      \<and> fst (snd (daily e f st')) = st')"
proof -
  have one: "getItem_error e (sha256 e (label a)) \<noteq> None \<longrightarrow>
      snd (process_address e cfg False now tomorrow st a)
        = snd (process_address (e\<lparr>getItem_error := (\<lambda>k. None)\<rparr>) cfg False now tomorrow
                 (st(sha256 e (label a) := None)) a)"
    using process_address_read_failure by blast
  have two: "getItem_error e (sha256 e (label a)) \<noteq> None
        \<and> scrapeNextCollections e (label a) = Inr result
        \<and> hasTomorrow (collections result) tomorrow \<longrightarrow>
      (\<exists>sends mark. snd (process_address e cfg False now tomorrow st a) = sends @ [mark]
          \<and> map email_to sends = map Some (filter emailLike (recipients a))
          \<and> email_to mark = None)"
  proof (intro impI, elim conjE)
    assume g: "getItem_error e (sha256 e (label a)) \<noteq> None"
      and s: "scrapeNextCollections e (label a) = Inr result"
      and h: "hasTomorrow (collections result) tomorrow"
    from g have w: "wasNotifiedForDate e st (sha256 e (label a)) tomorrow \<noteq> Inr True"
      by (auto simp: wasNotifiedForDate_def)
    show "\<exists>sends mark. snd (process_address e cfg False now tomorrow st a) = sends @ [mark]
          \<and> map email_to sends = map Some (filter emailLike (recipients a))
          \<and> email_to mark = None"
      unfolding process_address_notify_events [OF s h w]
      by (simp add: send_all_recipients)
  qed
  have three: "loadConfig e = Inr cfg' \<and> launchBrowser e = None \<and> browser_close e = None
        \<and> (\<forall>k. updateItem_error e k \<noteq> None) \<longrightarrow>
      fst (daily e f st') = Inr \<lparr>statusCode = 200, body = ''ok''\<rparr>
      \<and> fst (snd (daily e f st')) = st'"
    by (auto simp: daily_launched address_loop_store_kept)
  from one two three show ?thesis by blast
qed

theorem store_failures_tolerated_witness:
  "snd (process_address sample_env_read_down sample_config False sample_now ''2025-09-11''
          (sample_store ''2025-09-11'') sample_address)
     = snd (process_address (sample_env_read_down\<lparr>getItem_error := (\<lambda>k. None)\<rparr>) sample_config
              False sample_now ''2025-09-11''
              ((sample_store ''2025-09-11'')
                 (sha256 sample_env_read_down (label sample_address) := None))
              sample_address)
   \<and> map email_to (snd (process_address sample_env_read_down sample_config False sample_now
          ''2025-09-11'' (sample_store ''2025-09-11'') sample_address))
       = [Some ''a@b.co'', None]
   \<and> fst (daily sample_env_write_down False Map.empty) = Inr \<lparr>statusCode = 200, body = ''ok''\<rparr>
   \<and> fst (snd (daily sample_env_write_down False Map.empty)) = Map.empty"
proof -
  have g: "getItem_error sample_env_read_down (sha256 sample_env_read_down (label sample_address))
           \<noteq> None"
    by code_simp
  have ev: "map email_to (snd (process_address sample_env_read_down sample_config False sample_now
          ''2025-09-11'' (sample_store ''2025-09-11'') sample_address))
       = [Some ''a@b.co'', None]"
    by code_simp
  have lc: "loadConfig sample_env_write_down = Inr sample_config" by code_simp
  have lb: "launchBrowser sample_env_write_down = None" by code_simp
  have bc: "browser_close sample_env_write_down = None" by code_simp
  have up: "\<forall>k. updateItem_error sample_env_write_down k \<noteq> None"
    by (simp add: sample_env_write_down_def)
  from store_failures_tolerated
         [where e = sample_env_read_down and a = sample_address and cfg = sample_config
            and now = sample_now and tomorrow = "''2025-09-11''"
            and st = "sample_store ''2025-09-11''"] g
  have one: "snd (process_address sample_env_read_down sample_config False sample_now ''2025-09-11''
          (sample_store ''2025-09-11'') sample_address)
     = snd (process_address (sample_env_read_down\<lparr>getItem_error := (\<lambda>k. None)\<rparr>) sample_config
              False sample_now ''2025-09-11''
              ((sample_store ''2025-09-11'')
                 (sha256 sample_env_read_down (label sample_address) := None))
              sample_address)"
    by blast
  from store_failures_tolerated
         [where e = sample_env_write_down and cfg' = sample_config and f = False
            and st' = Map.empty] lc lb bc up
  have three: "fst (daily sample_env_write_down False Map.empty)
                 = Inr \<lparr>statusCode = 200, body = ''ok''\<rparr>
               \<and> fst (snd (daily sample_env_write_down False Map.empty)) = Map.empty"
    by blast
  from one ev three show ?thesis by blast
qed

lemma address_loop_append:
  "address_loop e cfg f now tomorrow st (as @ bs) =
     (let r = address_loop e cfg f now tomorrow st as;
          r' = address_loop e cfg f now tomorrow (fst r) bs
      in (fst r', snd r @ snd r'))"
  by (induction as arbitrary: st) (simp_all add: Let_def)

lemma address_loop_each:
  "snd (address_loop e cfg f now tomorrow st (as @ a # bs)) =
     snd (address_loop e cfg f now tomorrow st as)
     @ snd (process_address e cfg f now tomorrow (fst (address_loop e cfg f now tomorrow st as)) a)
     @ snd (address_loop e cfg f now tomorrow
              (fst (process_address e cfg f now tomorrow
                      (fst (address_loop e cfg f now tomorrow st as)) a)) bs)"
  by (simp add: address_loop_append Let_def)

text \<open>
  Claim C9, as amended. A run whose configuration loads and whose browser is launched
  goes through all the configured addresses, whatever fails for an address: every
  address of the list is processed, on the store the addresses before it left, and a
  scrape that throws for an address leaves the loop to go on with the next address as
  if the address were not there. When the browser then closes, the run returns the
  success result. A run that throws, throws the error of \<^verbatim>\<open>loadConfig\<close>, of
  \<^verbatim>\<open>launchBrowser\<close> or of \<^verbatim>\<open>browser.close()\<close> in the \<^verbatim>\<open>finally\<close> of the loop.
\<close>

theorem run_succeeds_despite_address_failures:
  "(loadConfig e = Inr cfg \<and> launchBrowser e = None \<and> browser_close e = None \<longrightarrow>
      fst (daily e f st) = Inr \<lparr>statusCode = 200, body = ''ok''\<rparr>)
   \<and> (scrapeNextCollections e (label a) = Inl err \<longrightarrow>
        address_loop e cfg f now tomorrow st (a # as) = address_loop e cfg f now tomorrow st as)
   \<and> (loadConfig e = Inr cfg \<and> launchBrowser e = None \<longrightarrow>
        snd (daily e f st)
          = address_loop e cfg f (run_now e cfg) (run_tomorrow e cfg) st (addresses cfg))
   \<and> snd (address_loop e cfg f now tomorrow st (as @ a # bs)) =
       snd (address_loop e cfg f now tomorrow st as)
       @ snd (process_address e cfg f now tomorrow (fst (address_loop e cfg f now tomorrow st as)) a)
       @ snd (address_loop e cfg f now tomorrow
                (fst (process_address e cfg f now tomorrow
                        (fst (address_loop e cfg f now tomorrow st as)) a)) bs)
   \<and> (fst (daily e f st) = Inl err' \<longrightarrow>
        loadConfig e = Inl err' \<or> launchBrowser e = Some err' \<or> browser_close e = Some err')"
proof -
  have one: "loadConfig e = Inr cfg \<and> launchBrowser e = None \<and> browser_close e = None \<longrightarrow>
      fst (daily e f st) = Inr \<lparr>statusCode = 200, body = ''ok''\<rparr>"
    by (simp add: daily_launched)
  have two: "scrapeNextCollections e (label a) = Inl err \<longrightarrow>
        address_loop e cfg f now tomorrow st (a # as) = address_loop e cfg f now tomorrow st as"
    using address_loop_scrape_failure [of e a err cfg f now tomorrow st as] by blast
  have three: "loadConfig e = Inr cfg \<and> launchBrowser e = None \<longrightarrow>
        snd (daily e f st)
          = address_loop e cfg f (run_now e cfg) (run_tomorrow e cfg) st (addresses cfg)"
    by (simp add: daily_launched)
  have five: "fst (daily e f st) = Inl err' \<longrightarrow>
        loadConfig e = Inl err' \<or> launchBrowser e = Some err' \<or> browser_close e = Some err'"
    using daily_error [of e f st err'] by blast
  from one two three five address_loop_each [of e cfg f now tomorrow st as a bs]
  show ?thesis by blast
qed

theorem run_succeeds_despite_address_failures_witness:
  "fst (daily sample_env_two False Map.empty) = Inr \<lparr>statusCode = 200, body = ''ok''\<rparr>
   \<and> scrapeNextCollections sample_env_two (label broken_address)
       = Inl (Error ''Results table did not render in time'')
   \<and> snd (snd (daily sample_env_two False Map.empty)) =
       [EmailFailed ''a@b.co''
          ''General Waste, Food Waste collection on 11th September 2025 - 10 Example Road''
          ''Collection tomorrow for 10 Example Road (11th September 2025): General Waste, Food Waste\<newline>\<newline>Put bins out.'',
        StateWriteFailed ''#10 Example Road'' ''2025-09-11'']"
proof -
  have lc: "loadConfig sample_env_two
              = Inr \<lparr>timezone = Some ''Europe/London'', notify_messageSuffix = Some ''Put bins out.'',
                     addresses = [broken_address, sample_address]\<rparr>"
    by code_simp
  have lb: "launchBrowser sample_env_two = None" by code_simp
  have bc: "browser_close sample_env_two = None" by code_simp
  have sc: "scrapeNextCollections sample_env_two (label broken_address)
       = Inl (Error ''Results table did not render in time'')"
    by code_simp
  have ev: "snd (snd (daily sample_env_two False Map.empty)) =
       [EmailFailed ''a@b.co''
          ''General Waste, Food Waste collection on 11th September 2025 - 10 Example Road''
          ''Collection tomorrow for 10 Example Road (11th September 2025): General Waste, Food Waste\<newline>\<newline>Put bins out.'',
        StateWriteFailed ''#10 Example Road'' ''2025-09-11'']"
    by code_simp
  from run_succeeds_despite_address_failures
         [where e = sample_env_two and f = False and st = Map.empty] lc lb bc
  have "fst (daily sample_env_two False Map.empty) = Inr \<lparr>statusCode = 200, body = ''ok''\<rparr>"
    by blast
  with sc ev show ?thesis by blast
qed

text \<open>
  Claim C9 as stated fails: the configuration loads, the browser is launched, the loop
  goes through its one address (the email is sent and the state written), and
  \<^verbatim>\<open>browser.close()\<close> throws in the \<^verbatim>\<open>finally\<close>: the handler throws that error where
  the claim has it return the success result.
\<close>

theorem browser_close_failure_rejects:
  "loadConfig sample_env_close_down = Inr sample_config
   \<and> launchBrowser sample_env_close_down = None
   \<and> snd (snd (daily sample_env_close_down False Map.empty)) =
       [EmailSent ''a@b.co''
          ''General Waste, Food Waste collection on 11th September 2025 - 10 Example Road''
          ''Collection tomorrow for 10 Example Road (11th September 2025): General Waste, Food Waste\<newline>\<newline>Put bins out.'',
        StateWritten ''#10 Example Road'' ''2025-09-11'']
   \<and> fst (daily sample_env_close_down False Map.empty)
       = Inl (Error ''Protocol error: Connection closed'')"
  by code_simp

text \<open>
  Claim C10. No send goes to a recipient that does not match the email-like pattern
  \<^verbatim>\<open>/.+@.+\..+/\<close>, in any run. In a run that is not forced, for an address whose schedule
  has the target date and that is not recorded as notified, the sends are one for each
  matching recipient; when no recipient matches, the only event is the write of the
  state (\<^verbatim>\<open>markNotified\<close> is still called), and when the store takes the write the item
  of the address holds the target date.
\<close>

theorem non_email_recipients_dropped:
  assumes "scrapeNextCollections e (label a) = Inr result"
    and "hasTomorrow (collections result) tomorrow"
    and "wasNotifiedForDate e st (sha256 e (label a)) tomorrow \<noteq> Inr True"
  shows "(\<forall>f' st' ev t. ev \<in> set (snd (process_address e cfg f' now tomorrow st' a))
              \<and> email_to ev = Some t \<longrightarrow> emailLike t \<and> t \<in> set (recipients a))
         \<and> map email_to (butlast (snd (process_address e cfg False now tomorrow st a)))
             = map Some (filter emailLike (recipients a))
         \<and> (filter emailLike (recipients a) = [] \<longrightarrow>
              process_address e cfg False now tomorrow st a
                = (case markNotified e st (sha256 e (label a)) tomorrow result of
                     Inl err \<Rightarrow> (st, [StateWriteFailed (sha256 e (label a)) tomorrow])
                   | Inr st' \<Rightarrow> (st', [StateWritten (sha256 e (label a)) tomorrow])))
         \<and> (filter emailLike (recipients a) = [] \<and> updateItem_error e (sha256 e (label a)) = None \<longrightarrow>
              snd (process_address e cfg False now tomorrow st a)
                = [StateWritten (sha256 e (label a)) tomorrow]
              \<and> map_option lastNotifiedForLocalDate
                  (fst (process_address e cfg False now tomorrow st a) (sha256 e (label a)))
                = Some (Some tomorrow))"
proof -
  have one: "\<forall>f' st' ev t. ev \<in> set (snd (process_address e cfg f' now tomorrow st' a))
              \<and> email_to ev = Some t \<longrightarrow> emailLike t \<and> t \<in> set (recipients a)"
    using process_address_email_to [of _ e cfg _ now tomorrow _ a] by auto
  have two: "map email_to (butlast (snd (process_address e cfg False now tomorrow st a)))
             = map Some (filter emailLike (recipients a))"
    unfolding process_address_notify_events [OF assms]
    by (simp add: send_all_recipients)
  have three: "filter emailLike (recipients a) = [] \<longrightarrow>
              process_address e cfg False now tomorrow st a
                = (case markNotified e st (sha256 e (label a)) tomorrow result of
                     Inl err \<Rightarrow> (st, [StateWriteFailed (sha256 e (label a)) tomorrow])
                   | Inr st' \<Rightarrow> (st', [StateWritten (sha256 e (label a)) tomorrow]))"
    unfolding process_address_notify [OF assms] by (simp split: sum.splits)
  have four: "filter emailLike (recipients a) = [] \<and> updateItem_error e (sha256 e (label a)) = None \<longrightarrow>
              snd (process_address e cfg False now tomorrow st a)
                = [StateWritten (sha256 e (label a)) tomorrow]
              \<and> map_option lastNotifiedForLocalDate
                  (fst (process_address e cfg False now tomorrow st a) (sha256 e (label a)))
                = Some (Some tomorrow)"
    unfolding process_address_notify [OF assms] by (simp add: markNotified_def)
  from one two three four show ?thesis by blast
qed

theorem non_email_recipients_dropped_witness:
  "\<not> emailLike ''+447700900001'' \<and> emailLike ''a@b.co''
   \<and> map email_to (butlast (snd (process_address sample_env sample_config False sample_now
         ''2025-09-11'' Map.empty sample_address))) = [Some ''a@b.co'']
   \<and> filter emailLike (recipients phone_address) = []
   \<and> snd (process_address sample_env sample_config False sample_now ''2025-09-11'' Map.empty
            phone_address)
       = [StateWritten ''#10 Example Road'' ''2025-09-11'']
   \<and> map_option lastNotifiedForLocalDate
        (fst (process_address sample_env sample_config False sample_now ''2025-09-11'' Map.empty
                phone_address) ''#10 Example Road'')
       = Some (Some ''2025-09-11'')"
proof -
  let ?r = "extractCollections sample_luxon (Some ''Europe/London'') sample_frame"
  have e1: "\<not> emailLike ''+447700900001''" by code_simp
  have e2: "emailLike ''a@b.co''" by code_simp
  have s1: "scrapeNextCollections sample_env (label sample_address) = Inr ?r" by code_simp
  have s2: "scrapeNextCollections sample_env (label phone_address) = Inr ?r" by code_simp
  have h: "hasTomorrow (collections ?r) ''2025-09-11''" by code_simp
  have w1: "wasNotifiedForDate sample_env Map.empty (sha256 sample_env (label sample_address))
              ''2025-09-11'' \<noteq> Inr True"
    by code_simp
  have w2: "wasNotifiedForDate sample_env Map.empty (sha256 sample_env (label phone_address))
              ''2025-09-11'' \<noteq> Inr True"
    by code_simp
  have r1: "filter emailLike (recipients sample_address) = [''a@b.co'']" by code_simp
  have r2: "filter emailLike (recipients phone_address) = []" by code_simp
  have u: "updateItem_error sample_env (sha256 sample_env (label phone_address)) = None"
    by code_simp
  have k: "sha256 sample_env (label phone_address) = ''#10 Example Road''" by code_simp
  from non_email_recipients_dropped [OF s1 h w1, of sample_config sample_now]
  have a: "map email_to (butlast (snd (process_address sample_env sample_config False sample_now
         ''2025-09-11'' Map.empty sample_address))) = [Some ''a@b.co'']"
    unfolding r1 by simp
  from non_email_recipients_dropped [OF s2 h w2, of sample_config sample_now] r2 u
  have b: "snd (process_address sample_env sample_config False sample_now ''2025-09-11'' Map.empty
            phone_address)
       = [StateWritten ''#10 Example Road'' ''2025-09-11'']
     \<and> map_option lastNotifiedForLocalDate
        (fst (process_address sample_env sample_config False sample_now ''2025-09-11'' Map.empty
                phone_address) ''#10 Example Road'')
       = Some (Some ''2025-09-11'')"
    unfolding k by blast
  from e1 e2 a r2 b show ?thesis by blast
qed

end
